theory Spec2Isabelle
  imports Main "HOL-Library.Word"
begin

unbundle bit_operations_syntax

section \<open>Common data: values, result codes\<close>

text \<open>
  A \<open>struct berval\<close> is a counted byte string; the embedding keeps the bytes.
  An \<open>AttributeDescription *\<close> is a shared handle of the schema registry, compared
  by pointer in the code; the embedding identifies a handle with its canonical name,
  so that pointer equality of handles is equality of names.
\<close>

type_synonym berval = string
type_synonym adesc = string

text \<open>
  Modelled from the spec: the result codes and the modification codes are declared in
  headers that are not among the sources (\<open>ldap.h\<close>, \<open>slap.h\<close>, \<open>db.h\<close>). The
  specification names them (sections 3 and 7). They are plain C integers and the code
  only compares them with each other and with 0; they have the values of the LDAP
  protocol and of the headers, the codes of the transaction store being negative.
\<close>

definition LDAP_SUCCESS :: int where "LDAP_SUCCESS = 0"
definition LDAP_REFERRAL :: int where "LDAP_REFERRAL = 10"
definition LDAP_TYPE_OR_VALUE_EXISTS :: int where "LDAP_TYPE_OR_VALUE_EXISTS = 20"
definition LDAP_INSUFFICIENT_ACCESS :: int where "LDAP_INSUFFICIENT_ACCESS = 50"
definition LDAP_BUSY :: int where "LDAP_BUSY = 51"
definition LDAP_OTHER :: int where "LDAP_OTHER = 80"
definition LDAP_ASSERTION_FAILED :: int where "LDAP_ASSERTION_FAILED = 122"
definition LDAP_COMPARE_TRUE :: int where "LDAP_COMPARE_TRUE = 6"
definition LDAP_X_NO_OPERATION :: int where "LDAP_X_NO_OPERATION = 16654"
definition SLAPD_ABANDON :: int where "SLAPD_ABANDON = - 1024"
definition DB_LOCK_DEADLOCK :: int where "DB_LOCK_DEADLOCK = - 30995"
definition DB_LOCK_NOTGRANTED :: int where "DB_LOCK_NOTGRANTED = - 30994"
definition DB_NOTFOUND :: int where "DB_NOTFOUND = - 30989"

definition LDAP_MOD_ADD :: int where "LDAP_MOD_ADD = 0"
definition LDAP_MOD_DELETE :: int where "LDAP_MOD_DELETE = 1"
definition LDAP_MOD_REPLACE :: int where "LDAP_MOD_REPLACE = 2"
definition LDAP_MOD_INCREMENT :: int where "LDAP_MOD_INCREMENT = 3"
definition SLAP_MOD_SOFTADD :: int where "SLAP_MOD_SOFTADD = 4096"


section \<open>servers/slapd/modify.c: \<open>add_lastmods\<close>\<close>

subsection \<open>The modification list of the front end\<close>

text \<open>
  \<open>LDAPMod\<close>: operation, attribute type and values; \<open>mod_bvalues\<close> may be \<open>NULL\<close>
  (a delete of a whole attribute), which is \<open>None\<close>. The \<open>mod_next\<close> chain is the
  list.
\<close>

record LDAPMod =
  mod_op :: int
  mod_type :: string
  mod_bvalues :: "berval list option"

subsection \<open>\<open>strcasecmp\<close>\<close>

definition tolower_c :: "char \<Rightarrow> char" where
  "tolower_c c =
     (let n = (of_char c :: nat)
      in if 65 \<le> n \<and> n \<le> 90 then char_of (n + 32) else c)"

text \<open>\<open>strcasecmp a b == 0\<close>: the strings agree up to the case of ASCII letters.\<close>

definition strcasecmp_eq :: "string \<Rightarrow> string \<Rightarrow> bool" where
  "strcasecmp_eq a b \<longleftrightarrow> map tolower_c a = map tolower_c b"

definition is_lastmod_type :: "string \<Rightarrow> bool" where
  "is_lastmod_type t \<longleftrightarrow>
     strcasecmp_eq t ''modifytimestamp'' \<or> strcasecmp_eq t ''modifiersname'' \<or>
     strcasecmp_eq t ''createtimestamp'' \<or> strcasecmp_eq t ''creatorsname''"

subsection \<open>The removal loop\<close>

text \<open>
  \<^verbatim>\<open>for ( m = mods; *m != NULL; m = &(*m)->mod_next ) {
      if ( <mod_type is one of the four> ) {
          tmp = *m;  *m = (*m)->mod_next;  <free tmp>
          if (!*m) break;
      }
  }\<close>
  After a node is unlinked, \<open>*m\<close> is the node that followed it, and the increment of
  the \<open>for\<close> moves \<open>m\<close> past that node: the follower stays in the list and is not tested.
\<close>

fun remove_lastmods :: "LDAPMod list \<Rightarrow> LDAPMod list" where
  "remove_lastmods [] = []"
| "remove_lastmods (x # xs) =
     (if is_lastmod_type (mod_type x)
      then (case xs of [] \<Rightarrow> [] | y # ys \<Rightarrow> y # remove_lastmods ys)
      else x # remove_lastmods xs)"

subsection \<open>\<open>strftime\<close> on the broken-down time\<close>

record tm =
  tm_sec :: int
  tm_min :: int
  tm_hour :: int
  tm_mday :: int
  tm_mon :: int
  tm_year :: int

definition digit_char :: "nat \<Rightarrow> char" where
  "digit_char d = char_of (48 + d)"

fun dec_nat :: "nat \<Rightarrow> string" where
  "dec_nat n = (if n < 10 then [digit_char n] else dec_nat (n div 10) @ [digit_char (n mod 10)])"

declare dec_nat.simps [simp del]

definition dec_int :: "int \<Rightarrow> string" where
  "dec_int i = (if i < 0 then CHR ''-'' # dec_nat (nat (- i)) else dec_nat (nat i))"

text \<open>A two-digit field (\<open>%m %d %H %M %S %y\<close>): zero-padded to width two.\<close>

definition pad2 :: "int \<Rightarrow> string" where
  "pad2 i = (if 0 \<le> i \<and> i < 10 then CHR ''0'' # dec_int i else dec_int i)"

text \<open>
  \<open>strftime( buf, sizeof(buf), fmt, ltm )\<close> with \<open>char buf[22]\<close>. The format is
  \<open>"%Y%m%d%H%M%SZ"\<close>, or \<open>"%y%m%d%H%M%SZ"\<close> when the build defines \<open>LDAP_LOCALTIME\<close>.
  When the text and its terminator do not fit, \<open>strftime\<close> returns 0 and the buffer
  is indeterminate: \<open>None\<close>.
\<close>

definition strftime_lastmod :: "bool \<Rightarrow> tm \<Rightarrow> string option" where
  "strftime_lastmod ldap_localtime t =
     (let year = (if ldap_localtime then pad2 ((tm_year t + 1900) mod 100)
                  else dec_int (tm_year t + 1900));
          s = year @ pad2 (tm_mon t + 1) @ pad2 (tm_mday t) @ pad2 (tm_hour t)
                @ pad2 (tm_min t) @ pad2 (tm_sec t) @ ''Z''
      in if length s < 22 then Some s else None)"

subsection \<open>\<open>add_lastmods\<close>\<close>

text \<open>
  What the function does to shared state is a trace: taking and releasing
  \<open>currenttime_mutex\<close>, and reading the global \<open>currenttime\<close>.
\<close>

datatype lm_event = Mutex_Lock | Read_Currenttime | Mutex_Unlock

text \<open>
  The build (\<open>LDAP_LOCALTIME\<close> defined or not) and the C library's \<open>gmtime\<close> and
  \<open>localtime\<close> are parameters.
\<close>

record lm_build =
  ldap_localtime :: bool
  gmtime :: "int \<Rightarrow> tm"
  localtime :: "int \<Rightarrow> tm"

definition new_replace_mod :: "string \<Rightarrow> berval \<Rightarrow> LDAPMod" where
  "new_replace_mod ty v =
     \<lparr>mod_op = LDAP_MOD_REPLACE, mod_type = ty, mod_bvalues = Some [v]\<rparr>"

definition modifiers_value :: "string option \<Rightarrow> berval" where
  "modifiers_value o_dn =
     (case o_dn of None \<Rightarrow> ''NULLDN''
      | Some d \<Rightarrow> if d = [] then ''NULLDN'' else d)"

text \<open>
  The result is the new list and the trace; \<open>None\<close> when \<open>strftime\<close> could not fill
  the buffer.
\<close>

definition add_lastmods ::
  "lm_build \<Rightarrow> string option \<Rightarrow> int \<Rightarrow> LDAPMod list \<Rightarrow> (LDAPMod list \<times> lm_event list) option" where
  "add_lastmods b o_dn currenttime mods =
     (let mods1 = remove_lastmods mods;
          mods2 = new_replace_mod ''modifiersname'' (modifiers_value o_dn) # mods1;
          ltm = (if ldap_localtime b then localtime b currenttime else gmtime b currenttime);
          tr = [Mutex_Lock, Read_Currenttime, Mutex_Unlock]
      in case strftime_lastmod (ldap_localtime b) ltm of
           None \<Rightarrow> None
         | Some buf \<Rightarrow> Some (new_replace_mod ''modifytimestamp'' buf # mods2, tr))"

text \<open>
  The caller, \<open>do_modify\<close>, from the test of \<open>be->be_modify\<close> on:
  \<^verbatim>\<open>if ( be->be_modify != NULL ) {
      if ( be->be_update_ndn == NULL || strcmp( be->be_update_ndn, op->o_ndn ) == 0 ) {
          if ( (be->be_lastmod == ON || ( be->be_lastmod == UNDEFINED &&
                global_lastmod == ON ) ) && be->be_update_ndn == NULL ) {
              add_lastmods( op, &mods );
          }
          if ( (*be->be_modify)( be, conn, op, ndn, mods ) == 0 ) ...
      } else { <send a referral> }
  } else { <LDAP_UNWILLING_TO_PERFORM> }\<close>
  The result says what is done with the list: it is handed to the backend (with the
  trace of \<open>add_lastmods\<close>, if that ran), or the request is referred or refused.
\<close>

datatype lastmod_setting = ON | OFF | UNDEFINED

record Backend_lm =
  be_has_modify :: bool
  be_lastmod :: lastmod_setting
  be_update_ndn :: "string option"

datatype dispatch =
    Be_Modify "LDAPMod list" "lm_event list"
  | Send_Referral
  | Unwilling_To_Perform

definition do_modify_dispatch ::
  "lm_build \<Rightarrow> Backend_lm \<Rightarrow> lastmod_setting \<Rightarrow> string option \<Rightarrow> string \<Rightarrow> int \<Rightarrow> LDAPMod list
     \<Rightarrow> dispatch option" where
  "do_modify_dispatch b be global_lastmod o_dn o_ndn currenttime mods =
     (if be_has_modify be
      then (if be_update_ndn be = None \<or> be_update_ndn be = Some o_ndn
            then (if (be_lastmod be = ON \<or> (be_lastmod be = UNDEFINED \<and> global_lastmod = ON))
                     \<and> be_update_ndn be = None
                  then (case add_lastmods b o_dn currenttime mods of
                          None \<Rightarrow> None
                        | Some (mods', tr) \<Rightarrow> Some (Be_Modify mods' tr))
                  else Some (Be_Modify mods []))
            else Some Send_Referral)
      else Some Unwilling_To_Perform)"

text \<open>The mutex is held at every read of the global: a scan of the trace.\<close>

fun reads_under_lock :: "bool \<Rightarrow> lm_event list \<Rightarrow> bool" where
  "reads_under_lock held [] = True"
| "reads_under_lock held (Mutex_Lock # es) = reads_under_lock True es"
| "reads_under_lock held (Mutex_Unlock # es) = reads_under_lock False es"
| "reads_under_lock held (Read_Currenttime # es) = (held \<and> reads_under_lock held es)"


subsection \<open>The timestamp format of the specification\<close>

text \<open>
  The specification's words for the value of \<open>modifytimestamp\<close>: the format
  \<open>YYYYMMDDhhmmssZ\<close>, four digits of the year, two each of month, day, hour, minute
  and second, and the letter Z. This definition follows the specification, not the code.
\<close>

definition YYYYMMDDhhmmssZ :: "nat \<Rightarrow> nat \<Rightarrow> nat \<Rightarrow> nat \<Rightarrow> nat \<Rightarrow> nat \<Rightarrow> string" where
  "YYYYMMDDhhmmssZ y mo d h mi s =
     [digit_char (y div 1000 mod 10), digit_char (y div 100 mod 10),
      digit_char (y div 10 mod 10), digit_char (y mod 10),
      digit_char (mo div 10 mod 10), digit_char (mo mod 10),
      digit_char (d div 10 mod 10), digit_char (d mod 10),
      digit_char (h div 10 mod 10), digit_char (h mod 10),
      digit_char (mi div 10 mod 10), digit_char (mi mod 10),
      digit_char (s div 10 mod 10), digit_char (s mod 10), CHR ''Z'']"

text \<open>
  A broken-down time as \<open>gmtime\<close> delivers it for a date of the years 1000 to 9999:
  \<open>tm_year\<close> counts from 1900, \<open>tm_mon\<close> from 0.
\<close>

definition tm_in_range :: "tm \<Rightarrow> bool" where
  "tm_in_range t \<longleftrightarrow>
     - 900 \<le> tm_year t \<and> tm_year t \<le> 8099 \<and> 0 \<le> tm_mon t \<and> tm_mon t \<le> 11 \<and>
     1 \<le> tm_mday t \<and> tm_mday t \<le> 31 \<and> 0 \<le> tm_hour t \<and> tm_hour t \<le> 23 \<and>
     0 \<le> tm_min t \<and> tm_min t \<le> 59 \<and> 0 \<le> tm_sec t \<and> tm_sec t \<le> 60"


section \<open>servers/slapd/back-bdb/modify.c: data\<close>

subsection \<open>Attributes, modifications, entries\<close>

text \<open>
  An \<open>Attribute\<close> node: descriptor, values, normalized values and the flag word. The
  \<open>a_next\<close> chain is the list.
\<close>

record Attribute =
  a_desc :: adesc
  a_vals :: "berval list"
  a_nvals :: "berval list"
  a_flags :: "32 word"

text \<open>
  Modelled from the spec: the two flag bits are declared in \<open>slap.h\<close>, which is not
  among the sources. The specification (4.3) has two per-attribute flags, one for the
  index delete and one for the index add: two different single bits.
\<close>

definition SLAP_ATTR_IXADD :: "32 word" where "SLAP_ATTR_IXADD = 1"
definition SLAP_ATTR_IXDEL :: "32 word" where "SLAP_ATTR_IXDEL = 2"

text \<open>
  A \<open>Modification\<close> (\<open>sml_mod\<close> of a \<open>Modifications\<close> node; \<open>sml_next\<close> is the list).
  A modification without values has the empty list.
\<close>

record Modification =
  sm_op :: int
  sm_desc :: adesc
  sm_values :: "berval list"
  sm_nvalues :: "berval list"

text \<open>The handles \<open>slap_schema.si_ad_structuralObjectClass\<close> and \<open>si_ad_objectClass\<close>.\<close>

definition si_ad_structuralObjectClass :: adesc where
  "si_ad_structuralObjectClass = ''structuralObjectClass''"

definition si_ad_objectClass :: adesc where
  "si_ad_objectClass = ''objectClass''"

text \<open>\<open>static struct berval scbva[] = { BER_BVC("glue"), BER_BVNULL }\<close>\<close>

definition scbva :: "berval list" where
  "scbva = [''glue'']"

text \<open>
  \<open>&mod->sm_values[0]\<close>, the address of the first value: \<open>None\<close> when the
  modification has no value.
\<close>

definition first_value :: "Modification \<Rightarrow> berval option" where
  "first_value m = (case sm_values m of [] \<Rightarrow> None | v # _ \<Rightarrow> Some v)"

subsection \<open>The store of attribute lists\<close>

text \<open>
  The pre-image list is shared with the entry cache and the post-image is a duplicate
  of it, so the lists live in a store and an entry holds a pointer. The unit of the
  store is a whole attribute list: a cell holds the list a head pointer leads to, an
  empty list is the \<open>NULL\<close> pointer (\<open>None\<close>) and has no cell. \<open>brk\<close> is the next
  address the allocator hands out.
\<close>

record heap =
  cells :: "nat \<Rightarrow> Attribute list option"
  brk :: nat

type_synonym attrs_ptr = "nat option"

definition attrs_of :: "heap \<Rightarrow> attrs_ptr \<Rightarrow> Attribute list" where
  "attrs_of h p =
     (case p of None \<Rightarrow> []
      | Some a \<Rightarrow> (case cells h a of None \<Rightarrow> [] | Some xs \<Rightarrow> xs))"

definition attrs_alloc :: "heap \<Rightarrow> Attribute list \<Rightarrow> heap \<times> attrs_ptr" where
  "attrs_alloc h xs =
     (if xs = [] then (h, None)
      else (h\<lparr>cells := (cells h)(brk h := Some xs), brk := Suc (brk h)\<rparr>, Some (brk h)))"

text \<open>\<open>attrs_free( p )\<close>: every node of the list is released.\<close>

definition attrs_free :: "heap \<Rightarrow> attrs_ptr \<Rightarrow> heap" where
  "attrs_free h p =
     (case p of None \<Rightarrow> h | Some a \<Rightarrow> h\<lparr>cells := (cells h)(a := None)\<rparr>)"

text \<open>
  Modelled from the spec: \<open>attrs_dup\<close> (attr.c) is not among the sources. The
  specification: the post-image is created by deep-copying the pre-image's attribute
  list.
\<close>

definition attrs_dup :: "heap \<Rightarrow> attrs_ptr \<Rightarrow> heap \<times> attrs_ptr" where
  "attrs_dup h p = attrs_alloc h (attrs_of h p)"

text \<open>
  Code that edits a list through the pointer variable that owns it (\<open>&e->e_attrs\<close>):
  afterwards the variable leads to the new contents. Nodes that were unlinked are
  released; a list that became empty is \<open>NULL\<close>.
\<close>

definition attrs_store :: "heap \<Rightarrow> attrs_ptr \<Rightarrow> Attribute list \<Rightarrow> heap \<times> attrs_ptr" where
  "attrs_store h p xs =
     (case p of None \<Rightarrow> attrs_alloc h xs
      | Some a \<Rightarrow> if xs = [] then (attrs_free h p, None)
                  else (h\<lparr>cells := (cells h)(a := Some xs)\<rparr>, Some a))"

text \<open>Writing fields of the nodes of a list in place; the nodes stay where they are.\<close>

definition attrs_update :: "heap \<Rightarrow> attrs_ptr \<Rightarrow> (Attribute list \<Rightarrow> Attribute list) \<Rightarrow> heap" where
  "attrs_update h p f =
     (case p of None \<Rightarrow> h
      | Some a \<Rightarrow> (case cells h a of None \<Rightarrow> h
                   | Some xs \<Rightarrow> h\<lparr>cells := (cells h)(a := Some (f xs))\<rparr>))"

text \<open>
  The fields of \<open>Entry\<close> and \<open>Operation\<close> that the two functions use.
  \<open>e_private\<close> is \<open>e->e_private != NULL\<close>.
\<close>

record Entry =
  e_id :: nat
  e_name :: string
  e_nname :: string
  e_attrs :: attrs_ptr
  e_ocflags :: "32 word"
  e_private :: bool

record Operation =
  o_noop :: bool
  o_permissiveModify :: bool
  o_manageDIT :: bool
  o_manageDSAit :: bool
  o_assert :: bool
  o_preread :: bool
  o_postread :: bool
  o_shadow :: bool
  o_req_dn :: string
  o_req_ndn :: string
  orm_modlist :: "Modification list"

subsection \<open>Collaborators of \<open>bdb_modify_internal\<close>\<close>

datatype index_op = SLAP_INDEX_ADD_OP | SLAP_INDEX_DELETE_OP

record index_call =
  ic_desc :: adesc
  ic_vals :: "berval list"
  ic_id :: nat
  ic_op :: index_op

text \<open>
  The functions \<open>bdb_modify_internal\<close> calls and that are not among the sources are
  parameters. \<open>value_match\<close> gives the integer it leaves in \<open>match\<close>; the four
  \<open>modify_*_values\<close> take the attribute list of \<open>e\<close> and the modification and give
  the code and the list as they left it; they read the modification and do not write
  it. The diagnostic text (\<open>text\<close>, \<open>textbuf\<close>) is left out.
\<close>

record bmi_env =
  acl_check_modlist :: "Entry \<Rightarrow> Attribute list \<Rightarrow> Modification list \<Rightarrow> bool"
  value_match :: "berval option \<Rightarrow> berval \<Rightarrow> int"
  is_at_operational :: "adesc \<Rightarrow> bool"
  modify_add_values :: "Attribute list \<Rightarrow> Modification \<Rightarrow> bool \<Rightarrow> int \<times> Attribute list"
  modify_delete_values :: "Attribute list \<Rightarrow> Modification \<Rightarrow> bool \<Rightarrow> int \<times> Attribute list"
  modify_replace_values :: "Attribute list \<Rightarrow> Modification \<Rightarrow> bool \<Rightarrow> int \<times> Attribute list"
  modify_increment_values :: "Attribute list \<Rightarrow> Modification \<Rightarrow> bool \<Rightarrow> int \<times> Attribute list"
  bdb_index_is_indexed :: "adesc \<Rightarrow> int"
  entry_schema_check :: "Attribute list \<Rightarrow> Attribute list \<Rightarrow> bool \<Rightarrow> int"
  bdb_index_values :: "adesc \<Rightarrow> berval list \<Rightarrow> nat \<Rightarrow> index_op \<Rightarrow> int"


section \<open>\<open>bdb_modify_internal\<close>\<close>

subsection \<open>Pass 1: the scan for a structural object class, and the purge\<close>

text \<open>
  \<^verbatim>\<open>for ( ml = modlist; ml != NULL; ml = ml->sml_next ) {
      switch( mod->sm_op ) {
      case LDAP_MOD_ADD: case LDAP_MOD_REPLACE:
          if ( mod->sm_desc == slap_schema.si_ad_structuralObjectClass ) {
              value_match( &match, ..., &mod->sm_values[0], &scbva[0], text );
              if ( !match ) glue_attr_delete = 1;
          }
      }
      if ( glue_attr_delete ) break;
  }\<close>
  The result is \<open>glue_attr_delete\<close> and the calls of \<open>value_match\<close> the loop made, by
  their first argument, in order.
\<close>

fun glue_scan :: "(berval option \<Rightarrow> berval \<Rightarrow> int) \<Rightarrow> Modification list \<Rightarrow> bool \<times> berval option list" where
  "glue_scan vm [] = (False, [])"
| "glue_scan vm (m # ml) =
     (if (sm_op m = LDAP_MOD_ADD \<or> sm_op m = LDAP_MOD_REPLACE)
         \<and> sm_desc m = si_ad_structuralObjectClass
      then (if vm (first_value m) (hd scbva) = 0 then (True, [first_value m])
            else (fst (glue_scan vm ml), first_value m # snd (glue_scan vm ml)))
      else glue_scan vm ml)"

text \<open>The purge loop over \<open>&e->e_attrs\<close>: a node that is not operational is unlinked and freed.\<close>

definition purge_non_operational :: "bmi_env \<Rightarrow> Attribute list \<Rightarrow> Attribute list" where
  "purge_non_operational env xs = filter (\<lambda>a. is_at_operational env (a_desc a)) xs"

text \<open>
  Pass 1 as a whole, from \<open>save_attrs = e->e_attrs\<close> to the end of the purge: the
  flag, the store and the pointer \<open>e->e_attrs\<close>.
\<close>

definition pass1 :: "bmi_env \<Rightarrow> Modification list \<Rightarrow> Entry \<Rightarrow> heap \<Rightarrow> bool \<times> heap \<times> attrs_ptr" where
  "pass1 env modlist e h =
     (let (h1, p1) = attrs_dup h (e_attrs e);
          glue_attr_delete = fst (glue_scan (value_match env) modlist)
      in if glue_attr_delete
         then (let (h2, p2) = attrs_store h1 p1 (purge_non_operational env (attrs_of h1 p1))
               in (True, h2, p2))
         else (False, h1, p1))"

subsection \<open>Pass 2: one modification\<close>

datatype trap = Assertion_Failed | Null_Dereference

text \<open>
  The \<open>switch\<close> of the second loop: the code \<open>err\<close>, the attribute list of \<open>e\<close>
  and the modification as the case leaves them. \<open>SLAP_MOD_SOFTADD\<close> writes \<open>sm_op\<close>
  twice. The \<open>assert\<close> after \<open>modify_delete_values\<close>, in a build that keeps
  assertions, ends the process (\<open>Assertion_Failed\<close>; \<open>Null_Dereference\<close> is for
  \<open>bdb_modify\<close> below).
\<close>

definition apply_mod ::
  "bmi_env \<Rightarrow> bool \<Rightarrow> bool \<Rightarrow> Attribute list \<Rightarrow> Modification
     \<Rightarrow> trap + (int \<times> Attribute list \<times> Modification)" where
  "apply_mod env permissive glue_attr_delete xs m =
     (if sm_op m = LDAP_MOD_ADD then
        (let (err, xs') = modify_add_values env xs m permissive in Inr (err, xs', m))
      else if sm_op m = LDAP_MOD_DELETE then
        (if glue_attr_delete then Inr (LDAP_SUCCESS, xs, m)
         else (let (err, xs') = modify_delete_values env xs m permissive
               in if err = LDAP_TYPE_OR_VALUE_EXISTS then Inl Assertion_Failed
                  else Inr (err, xs', m)))
      else if sm_op m = LDAP_MOD_REPLACE then
        (let (err, xs') = modify_replace_values env xs m permissive in Inr (err, xs', m))
      else if sm_op m = LDAP_MOD_INCREMENT then
        (let (err, xs') = modify_increment_values env xs m permissive in Inr (err, xs', m))
      else if sm_op m = SLAP_MOD_SOFTADD then
        (let m1 = m\<lparr>sm_op := LDAP_MOD_ADD\<rparr>;
             (err, xs') = modify_add_values env xs m1 permissive;
             m2 = m1\<lparr>sm_op := SLAP_MOD_SOFTADD\<rparr>;
             err' = (if err = LDAP_TYPE_OR_VALUE_EXISTS then LDAP_SUCCESS else err)
         in Inr (err', xs', m2))
      else Inr (LDAP_OTHER, xs, m))"

text \<open>
  Modelled from the spec: \<open>attr_find\<close> (attr.c) is not among the sources; it finds
  the attribute of a list that has the given descriptor. \<open>flag_first d f\<close> is
  \<open>ap = attr_find( list, d ); if ( ap ) ap->a_flags |= f\<close>.
\<close>

fun flag_first :: "adesc \<Rightarrow> 32 word \<Rightarrow> Attribute list \<Rightarrow> Attribute list" where
  "flag_first d f [] = []"
| "flag_first d f (a # as) =
     (if a_desc a = d then a\<lparr>a_flags := a_flags a OR f\<rparr> # as else a # flag_first d f as)"

subsection \<open>Pass 2: the loop\<close>

text \<open>The part of the state the loop changes: the store, \<open>e->e_attrs\<close> and \<open>e->e_ocflags\<close>.\<close>

record bmi_state =
  st_heap :: heap
  st_e_attrs :: attrs_ptr
  st_e_ocflags :: "32 word"

text \<open>
  One pass of the body for each modification. A code other than \<open>LDAP_SUCCESS\<close>
  frees \<open>e->e_attrs\<close>, puts \<open>save_attrs\<close> back and returns. Otherwise the object
  class flags are reset where the code says so, and for an indexed descriptor, unless
  the operation is a no-op, the attribute is flagged in both lists. The result is the
  code (\<open>LDAP_SUCCESS\<close> when the loop ran to its end), the modification list as the
  loop left it, and the state.
\<close>

fun apply_mods ::
  "bmi_env \<Rightarrow> Operation \<Rightarrow> bool \<Rightarrow> attrs_ptr \<Rightarrow> Modification list \<Rightarrow> bmi_state
     \<Rightarrow> trap + (int \<times> Modification list \<times> bmi_state)" where
  "apply_mods env op glue_attr_delete save_attrs [] st = Inr (LDAP_SUCCESS, [], st)"
| "apply_mods env op glue_attr_delete save_attrs (m # ml) st =
     (case apply_mod env (o_permissiveModify op) glue_attr_delete
             (attrs_of (st_heap st) (st_e_attrs st)) m of
        Inl t \<Rightarrow> Inl t
      | Inr (err, xs', m') \<Rightarrow>
          (let (h1, p1) = attrs_store (st_heap st) (st_e_attrs st) xs'
           in if err \<noteq> LDAP_SUCCESS
              then Inr (err, m' # ml, st\<lparr>st_heap := attrs_free h1 p1, st_e_attrs := save_attrs\<rparr>)
              else
                (let oc1 = (if sm_desc m' = si_ad_objectClass then 0 else st_e_ocflags st);
                     oc2 = (if glue_attr_delete then 0 else oc1);
                     h2 = (if bdb_index_is_indexed env (sm_desc m') = LDAP_SUCCESS \<and> \<not> o_noop op
                           then attrs_update
                                  (attrs_update h1 save_attrs (flag_first (sm_desc m') SLAP_ATTR_IXDEL))
                                  p1 (flag_first (sm_desc m') SLAP_ATTR_IXADD)
                           else h1)
                 in case apply_mods env op glue_attr_delete save_attrs ml
                           \<lparr>st_heap = h2, st_e_attrs = p1, st_e_ocflags = oc2\<rparr> of
                      Inl t \<Rightarrow> Inl t
                    | Inr (err', ml', st') \<Rightarrow> Inr (err', m' # ml', st'))))"

subsection \<open>The index loops\<close>

text \<open>
  \<^verbatim>\<open>for ( ap = list; ap != NULL; ap = ap->a_next ) {
      if ( ap->a_flags & FLAG ) {
          rc = bdb_index_values( op, tid, ap->a_desc, ap->a_nvals, e->e_id, OP );
          if ( rc != LDAP_SUCCESS ) { ...; return rc; }
          ap->a_flags &= ~FLAG;
      }
  }\<close>
  The loop over \<open>save_attrs\<close> has \<open>SLAP_ATTR_IXDEL\<close> and the delete operation, the
  loop over \<open>e->e_attrs\<close> has \<open>SLAP_ATTR_IXADD\<close> and the add operation. The result:
  \<open>rc\<close>, whether the loop returned from the function, the list with the flags as the
  loop left them, and the calls of \<open>bdb_index_values\<close>.
\<close>

fun index_loop ::
  "bmi_env \<Rightarrow> nat \<Rightarrow> 32 word \<Rightarrow> index_op \<Rightarrow> int \<Rightarrow> Attribute list
     \<Rightarrow> int \<times> bool \<times> Attribute list \<times> index_call list" where
  "index_loop env eid flag opc rc [] = (rc, False, [], [])"
| "index_loop env eid flag opc rc (ap # rest) =
     (if a_flags ap AND flag \<noteq> 0
      then (let rc' = bdb_index_values env (a_desc ap) (a_nvals ap) eid opc;
                call = \<lparr>ic_desc = a_desc ap, ic_vals = a_nvals ap, ic_id = eid, ic_op = opc\<rparr>
            in if rc' \<noteq> LDAP_SUCCESS then (rc', True, ap # rest, [call])
               else (case index_loop env eid flag opc rc' rest of
                       (r, failed, rest', calls) \<Rightarrow>
                         (r, failed, ap\<lparr>a_flags := a_flags ap AND NOT flag\<rparr> # rest', call # calls)))
      else (case index_loop env eid flag opc rc rest of
              (r, failed, rest', calls) \<Rightarrow> (r, failed, ap # rest', calls)))"

subsection \<open>The function\<close>

record bmi_result =
  r_rc :: int
  r_entry :: Entry
  r_heap :: heap
  r_modlist :: "Modification list"
  r_index_calls :: "index_call list"

text \<open>From the schema check to the end, with the state the second loop left.\<close>

definition after_mods ::
  "bmi_env \<Rightarrow> Operation \<Rightarrow> Entry \<Rightarrow> attrs_ptr \<Rightarrow> Modification list \<Rightarrow> bmi_state \<Rightarrow> bmi_result" where
  "after_mods env op e save_attrs ml st =
     (let h = st_heap st; p = st_e_attrs st;
          e1 = e\<lparr>e_attrs := p, e_ocflags := st_e_ocflags st\<rparr>;
          rc = entry_schema_check env (attrs_of h p) (attrs_of h save_attrs) (o_manageDIT op)
      in if rc \<noteq> LDAP_SUCCESS \<or> o_noop op
         then (let h1 = attrs_free h p;
                   h2 = attrs_update h1 save_attrs (map (\<lambda>ap. ap\<lparr>a_flags := 0\<rparr>))
               in \<lparr>r_rc = rc, r_entry = e1\<lparr>e_attrs := save_attrs\<rparr>, r_heap = h2,
                   r_modlist = ml, r_index_calls = []\<rparr>)
         else
           (case index_loop env (e_id e) SLAP_ATTR_IXDEL SLAP_INDEX_DELETE_OP rc
                   (attrs_of h save_attrs) of
              (rc1, failed1, pre', dels) \<Rightarrow>
                (let h1 = attrs_update h save_attrs (\<lambda>_. pre')
                 in if failed1
                    then \<lparr>r_rc = rc1, r_entry = e1\<lparr>e_attrs := save_attrs\<rparr>,
                          r_heap = attrs_free h1 p, r_modlist = ml, r_index_calls = dels\<rparr>
                    else
                      (case index_loop env (e_id e) SLAP_ATTR_IXADD SLAP_INDEX_ADD_OP rc1
                              (attrs_of h1 p) of
                         (rc2, failed2, post', adds) \<Rightarrow>
                           (let h2 = attrs_update h1 p (\<lambda>_. post')
                            in if failed2
                               then \<lparr>r_rc = rc2, r_entry = e1\<lparr>e_attrs := save_attrs\<rparr>,
                                     r_heap = attrs_free h2 p, r_modlist = ml,
                                     r_index_calls = dels @ adds\<rparr>
                               else \<lparr>r_rc = rc2, r_entry = e1, r_heap = h2, r_modlist = ml,
                                     r_index_calls = dels @ adds\<rparr>)))))"

text \<open>
  \<open>bdb_modify_internal( op, tid, modlist, e, ... )\<close>. \<open>e\<close> is the caller's copy of
  the entry structure; its \<open>e_attrs\<close> leads to the attribute list of the cached entry.
\<close>

definition bdb_modify_internal ::
  "bmi_env \<Rightarrow> Operation \<Rightarrow> Modification list \<Rightarrow> Entry \<Rightarrow> heap \<Rightarrow> trap + bmi_result" where
  "bdb_modify_internal env op modlist e h =
     (if \<not> acl_check_modlist env e (attrs_of h (e_attrs e)) modlist
      then Inr \<lparr>r_rc = LDAP_INSUFFICIENT_ACCESS, r_entry = e, r_heap = h,
                r_modlist = modlist, r_index_calls = []\<rparr>
      else
        (let save_attrs = e_attrs e
         in case pass1 env modlist e h of
              (glue_attr_delete, h2, p2) \<Rightarrow>
                (case apply_mods env op glue_attr_delete save_attrs modlist
                        \<lparr>st_heap = h2, st_e_attrs = p2, st_e_ocflags = e_ocflags e\<rparr> of
                   Inl t \<Rightarrow> Inl t
                 | Inr (err, ml', st) \<Rightarrow>
                     if err \<noteq> LDAP_SUCCESS
                     then Inr \<lparr>r_rc = err,
                               r_entry = e\<lparr>e_attrs := st_e_attrs st, e_ocflags := st_e_ocflags st\<rparr>,
                               r_heap = st_heap st, r_modlist = ml', r_index_calls = []\<rparr>
                     else Inr (after_mods env op e save_attrs ml' st))))"

subsection \<open>Notions for the properties\<close>

text \<open>An attribute without its flag word.\<close>

definition attr_data :: "Attribute \<Rightarrow> adesc \<times> berval list \<times> berval list" where
  "attr_data a = (a_desc a, a_vals a, a_nvals a)"

text \<open>
  A store is in order when nothing is allocated at or beyond \<open>brk\<close>; a pointer is
  valid when it is \<open>NULL\<close> or leads to an allocated list.
\<close>

definition heap_ok :: "heap \<Rightarrow> bool" where
  "heap_ok h \<longleftrightarrow> (\<forall>a. brk h \<le> a \<longrightarrow> cells h a = None)"

definition valid_ptr :: "heap \<Rightarrow> attrs_ptr \<Rightarrow> bool" where
  "valid_ptr h p \<longleftrightarrow> (case p of None \<Rightarrow> True | Some a \<Rightarrow> cells h a \<noteq> None)"

text \<open>
  The invariant of the second loop, between the store \<open>h\<close> at the call and the store
  \<open>h'\<close> with the duplicate at \<open>p'\<close>: the duplicate is the only cell that is new, and
  the saved list differs from the list at the call in flag words only.
\<close>

definition dup_inv :: "heap \<Rightarrow> attrs_ptr \<Rightarrow> heap \<Rightarrow> attrs_ptr \<Rightarrow> bool" where
  "dup_inv h save h' p' \<longleftrightarrow>
     heap_ok h \<and> heap_ok h' \<and> brk h \<le> brk h' \<and>
     (case p' of None \<Rightarrow> True | Some d \<Rightarrow> brk h \<le> d \<and> d < brk h') \<and>
     (\<forall>a. Some a \<noteq> p' \<longrightarrow> Some a \<noteq> save \<longrightarrow> cells h' a = cells h a) \<and>
     (case save of None \<Rightarrow> True
      | Some s \<Rightarrow> s < brk h \<and> cells h' s \<noteq> None \<and> cells h s \<noteq> None) \<and>
     map attr_data (attrs_of h' save) = map attr_data (attrs_of h save)"

text \<open>
  The store \<open>hf\<close> is the store \<open>h\<close> again, up to the flag words of the list at
  \<open>save\<close>: every other cell is as it was, and no cell is new.
\<close>

definition restored :: "heap \<Rightarrow> attrs_ptr \<Rightarrow> heap \<Rightarrow> bool" where
  "restored h save hf \<longleftrightarrow>
     (\<forall>a. Some a \<noteq> save \<longrightarrow> cells hf a = cells h a) \<and>
     map attr_data (attrs_of hf save) = map attr_data (attrs_of h save)"

text \<open>The index calls a list asks for: one for each attribute that carries the flag.\<close>

definition index_calls_for :: "nat \<Rightarrow> 32 word \<Rightarrow> index_op \<Rightarrow> Attribute list \<Rightarrow> index_call list" where
  "index_calls_for eid flag opc xs =
     map (\<lambda>ap. \<lparr>ic_desc = a_desc ap, ic_vals = a_nvals ap, ic_id = eid, ic_op = opc\<rparr>)
       (filter (\<lambda>ap. a_flags ap AND flag \<noteq> 0) xs)"


section \<open>\<open>bdb_modify\<close>\<close>

subsection \<open>State, events and collaborators\<close>

text \<open>
  The reply: \<open>sr_err\<close>, and whether \<open>sr_ctrls\<close> was set. The diagnostic text
  \<open>sr_text\<close> and the fields of a referral reply (\<open>sr_matched\<close>, \<open>sr_ref\<close>) are
  left out.
\<close>

record SlapReply =
  sr_err :: int
  sr_ctrls_set :: bool

text \<open>
  What the function does to the world outside its variables is a trace of events, in
  order: the transaction calls, the calls on the entry cache and the entry store, the
  reply, the calls of \<open>bdb_modify_internal\<close> (with the entry structure and the
  attribute list it is given) and the calls it makes on the index store, and the
  releases of memory.
\<close>

datatype bm_event =
    Txn_Begin
  | Txn_Begin_Nested
  | Txn_Abort
  | Txn_Commit_Nested
  | Txn_Commit
  | Txn_Checkpoint
  | Cache_Return_Entry_W nat
  | Cache_Return_Entry_R nat
  | Cache_Modify nat attrs_ptr
  | Id2entry_Update Entry "Attribute list"
  | Modify_Internal Entry "Attribute list" "Modification list"
  | Index_Values index_call
  | Entry_Free nat
  | Attrs_Free attrs_ptr
  | Send_Ldap_Result SlapReply
  | Graduate_Commit_Csn
  | Thread_Yield
  | Trans_Backoff nat

text \<open>
  The variables of \<open>bdb_modify\<close> and the memory it works on: the store of attribute
  lists, the \<open>Entry\<close> structures (of the cache, or made by \<open>ch_calloc\<close>) by address,
  and the trace. \<open>b_ltid\<close> is \<open>ltid != NULL\<close>; \<open>b_preread\<close> and \<open>b_postread\<close> are
  \<open>preread_ctrl != NULL\<close> and \<open>postread_ctrl != NULL\<close>. The bookkeeping of
  \<open>op->o_private\<close>, \<open>op->o_do_not_cache\<close>, \<open>locker\<close> and \<open>lock\<close> is left out.
\<close>

record bm_state =
  b_heap :: heap
  b_entries :: "nat \<Rightarrow> Entry option"
  b_ebrk :: nat
  b_trace :: "bm_event list"
  b_e :: "nat option"
  b_ltid :: bool
  b_dummy :: Entry
  b_fakeroot :: bool
  b_num_retries :: nat
  b_preread :: bool
  b_postread :: bool
  b_num_ctrls :: nat
  b_rs :: SlapReply
  b_modlist :: "Modification list"

text \<open>
  The collaborators that are not among the sources are parameters. What one of them
  answers may differ from one attempt to the next (a deadlock does not repeat), so
  the answers are indexed by the number of retries so far. \<open>bdb_dn2entry\<close> gives its
  code and \<open>ei\<close>, which is \<open>NULL\<close> or has \<open>bei_e\<close>, itself \<open>NULL\<close> or the address
  of an entry of the cache. \<open>slap_read_controls\<close> gives its value and the \<open>sr_err\<close> it
  leaves. \<open>boi_err\<close> is \<open>opinfo.boi_err\<close> after \<open>bdb_modify_internal\<close>.
\<close>

record bm_env =
  slap_mods_opattrs :: "Modification list \<Rightarrow> Modification list"
  txn_begin :: "nat \<Rightarrow> int"
  txn_begin_nested :: "nat \<Rightarrow> int"
  txn_abort_retry :: "nat \<Rightarrow> int"
  txn_abort_noop :: "nat \<Rightarrow> int"
  txn_commit_nested :: "nat \<Rightarrow> int"
  txn_commit :: "nat \<Rightarrow> int"
  o_abandon :: "nat \<Rightarrow> bool"
  bdb_dn2entry :: "nat \<Rightarrow> int \<times> nat option option"
  is_entry_glue :: "Entry \<Rightarrow> Attribute list \<Rightarrow> bool"
  is_entry_referral :: "Entry \<Rightarrow> Attribute list \<Rightarrow> bool"
  test_filter :: "Entry option \<Rightarrow> Attribute list \<Rightarrow> int"
  read_controls_pre :: "nat \<Rightarrow> int \<times> int"
  read_controls_post :: "nat \<Rightarrow> int \<times> int"
  modify_env :: "nat \<Rightarrow> bmi_env"
  boi_err :: "nat \<Rightarrow> int"
  bdb_id2entry_update :: "nat \<Rightarrow> int"
  bdb_cache_modify :: "nat \<Rightarrow> int"
  bi_txn_cp :: bool

datatype bm_goto =
    Goto_Retry bm_state
  | Goto_Return_Results bm_state
  | Goto_Done bm_state
  | Trapped trap

definition emit :: "bm_event \<Rightarrow> bm_state \<Rightarrow> bm_state" where
  "emit ev st = st\<lparr>b_trace := b_trace st @ [ev]\<rparr>"

definition set_err :: "int \<Rightarrow> bm_state \<Rightarrow> bm_state" where
  "set_err err st = st\<lparr>b_rs := (b_rs st)\<lparr>sr_err := err\<rparr>\<rparr>"

text \<open>The entry \<open>e\<close> points to, and its attribute list.\<close>

definition entry_at :: "bm_state \<Rightarrow> nat option \<Rightarrow> Entry option" where
  "entry_at st p = (case p of None \<Rightarrow> None | Some a \<Rightarrow> b_entries st a)"

definition entry_attrs :: "bm_state \<Rightarrow> Entry \<Rightarrow> Attribute list" where
  "entry_attrs st en = attrs_of (b_heap st) (e_attrs en)"

subsection \<open>The labels \<open>return_results\<close> and \<open>done\<close>\<close>

text \<open>
  \<^verbatim>\<open>return_results:
      if( dummy.e_attrs ) attrs_free( dummy.e_attrs );
      send_ldap_result( op, rs );
      if ( !SLAP_SHADOW( op->o_bd )) slap_graduate_commit_csn( op );
      if( rs->sr_err == LDAP_SUCCESS && bdb->bi_txn_cp ) { yield; TXN_CHECKPOINT }\<close>
\<close>

definition return_results :: "bm_env \<Rightarrow> Operation \<Rightarrow> bm_state \<Rightarrow> bm_state" where
  "return_results env op st =
     (let st1 = (if e_attrs (b_dummy st) \<noteq> None
                 then emit (Attrs_Free (e_attrs (b_dummy st)))
                        (st\<lparr>b_heap := attrs_free (b_heap st) (e_attrs (b_dummy st))\<rparr>)
                 else st);
          st2 = emit (Send_Ldap_Result (b_rs st1)) st1;
          st3 = (if \<not> o_shadow op then emit Graduate_Commit_Csn st2 else st2)
      in if sr_err (b_rs st3) = LDAP_SUCCESS \<and> bi_txn_cp env
         then emit Txn_Checkpoint (emit Thread_Yield st3)
         else st3)"

text \<open>
  \<^verbatim>\<open>done:
      if( ltid != NULL ) TXN_ABORT( ltid );
      if( e != NULL ) bdb_unlocked_cache_return_entry_w( &bdb->bi_cache, e );\<close>
  The release of the buffers of the read controls is left out.
\<close>

definition done_label :: "bm_state \<Rightarrow> bm_state" where
  "done_label st =
     (let st1 = (if b_ltid st then emit Txn_Abort st else st)
      in case b_e st1 of None \<Rightarrow> st1 | Some a \<Rightarrow> emit (Cache_Return_Entry_W a) st1)"

subsection \<open>From the no-op test to the commit\<close>

text \<open>
  Modelled from the spec: \<open>entry_free\<close> (entry.c) and \<open>bdb_cache_modify\<close>
  (cache.c) are not among the sources. \<open>entry_free\<close> releases the entry with its
  attribute list. Of \<open>bdb_cache_modify\<close> the specification says that the cache
  adopts the post-image's attribute list, and the code that \<open>save_attrs\<close> will be
  disposed of by it: when it answers 0 the cached entry has the new list and the
  old list is released.
\<close>

definition entry_free :: "nat \<Rightarrow> bm_state \<Rightarrow> bm_state" where
  "entry_free a st =
     (case b_entries st a of
        None \<Rightarrow> emit (Entry_Free a) st
      | Some en \<Rightarrow>
          emit (Entry_Free a)
            (st\<lparr>b_heap := attrs_free (b_heap st) (e_attrs en),
                b_entries := (b_entries st)(a := None)\<rparr>))"

definition cache_adopt :: "nat \<Rightarrow> attrs_ptr \<Rightarrow> bm_state \<Rightarrow> bm_state" where
  "cache_adopt a new_attrs st =
     (case b_entries st a of
        None \<Rightarrow> st
      | Some en \<Rightarrow>
          st\<lparr>b_heap := attrs_free (b_heap st) (e_attrs en),
             b_entries := (b_entries st)(a := Some (en\<lparr>e_attrs := new_attrs\<rparr>))\<rparr>)"

text \<open>
  \<^verbatim>\<open>ltid = NULL;
  if( rs->sr_err != 0 ) { rs->sr_err = LDAP_OTHER; goto return_results; }
  rs->sr_err = LDAP_SUCCESS;
  if( num_ctrls ) rs->sr_ctrls = ctrls;\<close>
\<close>

definition after_commit :: "bm_state \<Rightarrow> bm_goto" where
  "after_commit st =
     (let st1 = st\<lparr>b_ltid := False\<rparr>
      in if sr_err (b_rs st1) \<noteq> 0 then Goto_Return_Results (set_err LDAP_OTHER st1)
         else Goto_Return_Results
                (st1\<lparr>b_rs := \<lparr>sr_err = LDAP_SUCCESS,
                               sr_ctrls_set = (sr_ctrls_set (b_rs st1) \<or> b_num_ctrls st1 \<noteq> 0)\<rparr>\<rparr>))"

text \<open>
  \<^verbatim>\<open>if( op->o_noop ) {
      if ( ( rs->sr_err = TXN_ABORT( ltid ) ) != 0 ) { ... }
      else { rs->sr_err = LDAP_X_NO_OPERATION; ltid = NULL; goto return_results; }
  } else {
      e->e_ocflags = dummy.e_ocflags;
      if ( fakeroot ) { e->e_private = NULL; entry_free( e ); }
      else { rc = bdb_cache_modify( e, dummy.e_attrs, ... );
             switch( rc ) { case DB_LOCK_DEADLOCK: case DB_LOCK_NOTGRANTED: goto retry; } }
      dummy.e_attrs = NULL;
      rs->sr_err = TXN_COMMIT( ltid, 0 );
  }\<close>
\<close>

definition commit_stage :: "bm_env \<Rightarrow> Operation \<Rightarrow> bm_state \<Rightarrow> bm_goto" where
  "commit_stage env op st =
     (let n = b_num_retries st
      in if o_noop op
         then (let st1 = set_err (txn_abort_noop env n) (emit Txn_Abort st)
               in if txn_abort_noop env n \<noteq> 0 then after_commit st1
                  else Goto_Return_Results ((set_err LDAP_X_NO_OPERATION st1)\<lparr>b_ltid := False\<rparr>))
         else (case b_e st of
                 None \<Rightarrow> Trapped Null_Dereference
               | Some a \<Rightarrow>
                   (case b_entries st a of
                      None \<Rightarrow> Trapped Null_Dereference
                    | Some en \<Rightarrow>
                        (let st1 = st\<lparr>b_entries := (b_entries st)
                                          (a := Some (en\<lparr>e_ocflags := e_ocflags (b_dummy st)\<rparr>))\<rparr>;
                             commit = (\<lambda>s. after_commit
                                        (set_err (txn_commit env n)
                                           (emit Txn_Commit
                                              (s\<lparr>b_dummy := (b_dummy s)\<lparr>e_attrs := None\<rparr>\<rparr>))))
                         in if b_fakeroot st1
                            then commit
                                   (entry_free a
                                      (st1\<lparr>b_entries := (b_entries st1)
                                              (a := Some (en\<lparr>e_ocflags := e_ocflags (b_dummy st),
                                                            e_private := False\<rparr>))\<rparr>))
                            else (let rc = bdb_cache_modify env n;
                                      st2 = emit (Cache_Modify a (e_attrs (b_dummy st1))) st1;
                                      st3 = (if rc = 0 then cache_adopt a (e_attrs (b_dummy st1)) st2
                                             else st2)
                                  in if rc = DB_LOCK_DEADLOCK \<or> rc = DB_LOCK_NOTGRANTED
                                     then Goto_Retry st3
                                     else commit st3)))))"

subsection \<open>From the nested transaction to the post-read\<close>

text \<open>
  \<^verbatim>\<open>rs->sr_err = bdb_id2entry_update( op->o_bd, lt2, &dummy );
  if ( rs->sr_err != 0 ) { <deadlock: goto retry>  goto return_results; }
  if ( TXN_COMMIT( lt2, 0 ) != 0 ) { rs->sr_err = LDAP_OTHER; goto return_results; }
  if( op->o_postread ) { ... if( slap_read_controls( ... ) ) goto return_results; }\<close>
\<close>

definition update_stage :: "bm_env \<Rightarrow> Operation \<Rightarrow> bm_state \<Rightarrow> bm_goto" where
  "update_stage env op st =
     (let n = b_num_retries st;
          rc = bdb_id2entry_update env n;
          st1 = set_err rc (emit (Id2entry_Update (b_dummy st) (entry_attrs st (b_dummy st))) st)
      in if rc \<noteq> 0
         then (if rc = DB_LOCK_DEADLOCK \<or> rc = DB_LOCK_NOTGRANTED then Goto_Retry st1
               else Goto_Return_Results st1)
         else (let st2 = emit Txn_Commit_Nested st1
               in if txn_commit_nested env n \<noteq> 0
                  then Goto_Return_Results (set_err LDAP_OTHER st2)
                  else if o_postread op
                  then (let st3 = (if b_postread st2 then st2
                                   else st2\<lparr>b_postread := True,
                                           b_num_ctrls := Suc (b_num_ctrls st2)\<rparr>);
                            st4 = set_err (snd (read_controls_post env n)) st3
                        in if fst (read_controls_post env n) \<noteq> 0
                           then Goto_Return_Results st4
                           else commit_stage env op st4)
                  else commit_stage env op st2))"

text \<open>
  \<^verbatim>\<open>rs->sr_err = TXN_BEGIN( bdb->bi_dbenv, ltid, &lt2, ... );
  if( rs->sr_err != 0 ) { rs->sr_err = LDAP_OTHER; goto return_results; }
  dummy = *e;
  rs->sr_err = bdb_modify_internal( op, lt2, op->oq_modify.rs_modlist, &dummy, ... );
  if( rs->sr_err != LDAP_SUCCESS ) {
      if ( (rs->sr_err == LDAP_INSUFFICIENT_ACCESS) && opinfo.boi_err )
          rs->sr_err = opinfo.boi_err;
      /* Only free attrs if they were dup'd.  */
      if ( dummy.e_attrs == e->e_attrs ) dummy.e_attrs = NULL;
      <deadlock: goto retry>
      goto return_results;
  }\<close>
\<close>

definition modify_stage :: "bm_env \<Rightarrow> Operation \<Rightarrow> bm_state \<Rightarrow> bm_goto" where
  "modify_stage env op st =
     (let n = b_num_retries st;
          st1 = set_err (txn_begin_nested env n) (emit Txn_Begin_Nested st)
      in if txn_begin_nested env n \<noteq> 0 then Goto_Return_Results (set_err LDAP_OTHER st1)
         else (case entry_at st1 (b_e st1) of
                 None \<Rightarrow> Trapped Null_Dereference
               | Some en \<Rightarrow>
                   (let st2 = emit (Modify_Internal en (entry_attrs st1 en) (b_modlist st1))
                                (st1\<lparr>b_dummy := en\<rparr>)
                    in case bdb_modify_internal (modify_env env n) op (b_modlist st2) en (b_heap st2) of
                         Inl t \<Rightarrow> Trapped t
                       | Inr r \<Rightarrow>
                           (let st3 = set_err (r_rc r)
                                        (st2\<lparr>b_heap := r_heap r, b_dummy := r_entry r,
                                             b_modlist := r_modlist r,
                                             b_trace := b_trace st2 @ map Index_Values (r_index_calls r)\<rparr>)
                            in if r_rc r \<noteq> LDAP_SUCCESS
                               then (let err = (if r_rc r = LDAP_INSUFFICIENT_ACCESS \<and> boi_err env n \<noteq> 0
                                                then boi_err env n else r_rc r);
                                         st4 = set_err err st3;
                                         st5 = (if e_attrs (b_dummy st4) = e_attrs en
                                                then st4\<lparr>b_dummy := (b_dummy st4)\<lparr>e_attrs := None\<rparr>\<rparr>
                                                else st4)
                                     in if err = DB_LOCK_DEADLOCK \<or> err = DB_LOCK_NOTGRANTED
                                        then Goto_Retry st5
                                        else Goto_Return_Results st5)
                               else update_stage env op st3))))"

subsection \<open>From the resolved entry to the pre-read\<close>

text \<open>
  \<^verbatim>\<open>if ( !fakeroot ) e = ei->bei_e;
  if (( rs->sr_err == DB_NOTFOUND ) || ( !manageDSAit && e && is_entry_glue( e ))) {
      if ( e != NULL ) { ...; bdb_unlocked_cache_return_entry_r( &bdb->bi_cache, e ); e = NULL; }
      rs->sr_err = LDAP_REFERRAL;  send_ldap_result( op, rs );  goto done;
  }
  if ( !manageDSAit && is_entry_referral( e ) ) {
      rs->sr_err = LDAP_REFERRAL;  send_ldap_result( op, rs );  goto done;
  }
  if ( get_assert( op ) && ( test_filter( op, e, ... ) != LDAP_COMPARE_TRUE )) {
      rs->sr_err = LDAP_ASSERTION_FAILED;  goto return_results;
  }
  if( op->o_preread ) { ... if ( slap_read_controls( ... ) ) goto return_results; }\<close>
  \<open>ei\<close> is what \<open>bdb_dn2entry\<close> left. Reading through a \<open>NULL\<close> \<open>ei\<close> or \<open>e\<close> is
  \<open>Null_Dereference\<close>.
\<close>

definition preread_stage :: "bm_env \<Rightarrow> Operation \<Rightarrow> bm_state \<Rightarrow> bm_goto" where
  "preread_stage env op st =
     (let n = b_num_retries st
      in if o_assert op
            \<and> test_filter env (entry_at st (b_e st))
                  (case entry_at st (b_e st) of None \<Rightarrow> [] | Some en \<Rightarrow> entry_attrs st en)
                \<noteq> LDAP_COMPARE_TRUE
         then Goto_Return_Results (set_err LDAP_ASSERTION_FAILED st)
         else if o_preread op
         then (let st1 = (if b_preread st then st
                          else st\<lparr>b_preread := True, b_num_ctrls := Suc (b_num_ctrls st)\<rparr>);
                   st2 = set_err (snd (read_controls_pre env n)) st1
               in if fst (read_controls_pre env n) \<noteq> 0 then Goto_Return_Results st2
                  else modify_stage env op st2)
         else modify_stage env op st)"

definition referral_stage :: "bm_env \<Rightarrow> Operation \<Rightarrow> nat option option \<Rightarrow> bm_state \<Rightarrow> bm_goto" where
  "referral_stage env op ei st =
     (if \<not> b_fakeroot st \<and> ei = None then Trapped Null_Dereference
      else
        (let st1 = (if \<not> b_fakeroot st then st\<lparr>b_e := the ei\<rparr> else st)
         in case b_e st1 of
              None \<Rightarrow>
                (if sr_err (b_rs st1) = DB_NOTFOUND
                 then (let st2 = set_err LDAP_REFERRAL st1
                       in Goto_Done (emit (Send_Ldap_Result (b_rs st2)) st2))
                 else if \<not> o_manageDSAit op then Trapped Null_Dereference
                 else preread_stage env op st1)
            | Some a \<Rightarrow>
                (case b_entries st1 a of
                   None \<Rightarrow> Trapped Null_Dereference
                 | Some en \<Rightarrow>
                     (if sr_err (b_rs st1) = DB_NOTFOUND
                         \<or> (\<not> o_manageDSAit op \<and> is_entry_glue env en (entry_attrs st1 en))
                      then (let st2 = set_err LDAP_REFERRAL
                                        ((emit (Cache_Return_Entry_R a) st1)\<lparr>b_e := None\<rparr>)
                            in Goto_Done (emit (Send_Ldap_Result (b_rs st2)) st2))
                      else if \<not> o_manageDSAit op \<and> is_entry_referral env en (entry_attrs st1 en)
                      then (let st2 = set_err LDAP_REFERRAL st1
                            in Goto_Done (emit (Send_Ldap_Result (b_rs st2)) st2))
                      else preread_stage env op st1))))"

subsection \<open>The transaction and the resolution of the DN\<close>

text \<open>
  Modelled from the spec: \<open>attr_merge_one\<close> (attr.c) is not among the sources; the
  specification has the entry made with object class \<open>glue\<close> and structural object
  class \<open>glue\<close>. Without a normalized value given, the normalized values are the
  values.
\<close>

definition glue_attribute :: "adesc \<Rightarrow> Attribute" where
  "glue_attribute d = \<lparr>a_desc = d, a_vals = [''glue''], a_nvals = [''glue''], a_flags = 0\<rparr>"

text \<open>
  \<^verbatim>\<open>struct berval gluebv = BER_BVC("glue");
  e = ch_calloc( 1, sizeof(Entry));
  e->e_name.bv_val = ch_strdup( "" );
  ber_dupbv( &e->e_nname, &e->e_name );
  attr_merge_one( e, slap_schema.si_ad_objectClass, &gluebv, NULL );
  attr_merge_one( e, slap_schema.si_ad_structuralObjectClass, &gluebv, NULL );
  e->e_private = ei;
  fakeroot = 1;
  rs->sr_err = 0;\<close>
\<close>

definition fake_root :: "nat option option \<Rightarrow> bm_state \<Rightarrow> bm_state" where
  "fake_root ei st =
     (let (h, p) = attrs_alloc (b_heap st)
                     [glue_attribute si_ad_objectClass, glue_attribute si_ad_structuralObjectClass];
          en = \<lparr>e_id = 0, e_name = [], e_nname = [], e_attrs = p, e_ocflags = 0,
                e_private = (ei \<noteq> None)\<rparr>
      in set_err 0
           (st\<lparr>b_heap := h, b_entries := (b_entries st)(b_ebrk st := Some en),
               b_ebrk := Suc (b_ebrk st), b_e := Some (b_ebrk st), b_fakeroot := True\<rparr>))"

text \<open>
  \<^verbatim>\<open>rs->sr_err = TXN_BEGIN( bdb->bi_dbenv, NULL, &ltid, ... );
  if( rs->sr_err != 0 ) { rs->sr_err = LDAP_OTHER; goto return_results; }
  rs->sr_err = bdb_dn2entry( op, ltid, &op->o_req_ndn, &ei, 1, locker, &lock );
  if ( rs->sr_err != 0 ) {
      switch( rs->sr_err ) {
      case DB_LOCK_DEADLOCK: case DB_LOCK_NOTGRANTED: goto retry;
      case DB_NOTFOUND: if ( BER_BVISEMPTY( &op->o_req_ndn )) { <the fake root> } break;
      case LDAP_BUSY: goto return_results;
      default: rs->sr_err = LDAP_OTHER; goto return_results;
      }
  }\<close>
\<close>

definition begin_label :: "bm_env \<Rightarrow> Operation \<Rightarrow> bm_state \<Rightarrow> bm_goto" where
  "begin_label env op st =
     (let n = b_num_retries st;
          st1 = set_err (txn_begin env n) ((emit Txn_Begin st)\<lparr>b_ltid := (txn_begin env n = 0)\<rparr>)
      in if txn_begin env n \<noteq> 0 then Goto_Return_Results (set_err LDAP_OTHER st1)
         else (let rc = fst (bdb_dn2entry env n);
                   ei = snd (bdb_dn2entry env n);
                   st2 = set_err rc st1
               in if rc = 0 then referral_stage env op ei st2
                  else if rc = DB_LOCK_DEADLOCK \<or> rc = DB_LOCK_NOTGRANTED then Goto_Retry st2
                  else if rc = DB_NOTFOUND
                  then (if o_req_ndn op = [] then referral_stage env op ei (fake_root ei st2)
                        else referral_stage env op ei st2)
                  else if rc = LDAP_BUSY then Goto_Return_Results st2
                  else Goto_Return_Results (set_err LDAP_OTHER st2)))"

text \<open>
  \<^verbatim>\<open>retry:
      if ( dummy.e_attrs ) { attrs_free( dummy.e_attrs ); dummy.e_attrs = NULL; }
      if( e != NULL ) { bdb_unlocked_cache_return_entry_w(&bdb->bi_cache, e); e = NULL; }
      rs->sr_err = TXN_ABORT( ltid );  ltid = NULL;
      if( rs->sr_err != 0 ) { rs->sr_err = LDAP_OTHER; goto return_results; }
      if ( op->o_abandon ) { rs->sr_err = SLAPD_ABANDON; goto return_results; }
      ldap_pvt_thread_yield();
      bdb_trans_backoff( ++num_retries );\<close>
  and on into the next attempt.
\<close>

definition retry_label :: "bm_env \<Rightarrow> Operation \<Rightarrow> bm_state \<Rightarrow> bm_goto" where
  "retry_label env op st =
     (let n = b_num_retries st;
          st1 = (if e_attrs (b_dummy st) \<noteq> None
                 then emit (Attrs_Free (e_attrs (b_dummy st)))
                        (st\<lparr>b_heap := attrs_free (b_heap st) (e_attrs (b_dummy st)),
                            b_dummy := (b_dummy st)\<lparr>e_attrs := None\<rparr>\<rparr>)
                 else st);
          st2 = (case b_e st1 of None \<Rightarrow> st1
                 | Some a \<Rightarrow> (emit (Cache_Return_Entry_W a) st1)\<lparr>b_e := None\<rparr>);
          st3 = set_err (txn_abort_retry env n) ((emit Txn_Abort st2)\<lparr>b_ltid := False\<rparr>)
      in if txn_abort_retry env n \<noteq> 0 then Goto_Return_Results (set_err LDAP_OTHER st3)
         else if o_abandon env n then Goto_Return_Results (set_err SLAPD_ABANDON st3)
         else begin_label env op
                (emit (Trans_Backoff (Suc n)) ((emit Thread_Yield st3)\<lparr>b_num_retries := Suc n\<rparr>)))"

subsection \<open>The function\<close>

text \<open>
  The retries have no bound in the code. The embedding counts them down from a
  number it is given: \<open>None\<close> when that many retries did not end the operation.
  Otherwise the result is the state at the \<open>return\<close> (its \<open>b_rs\<close> has the value
  returned), or the trap.
\<close>

fun run_goto :: "nat \<Rightarrow> bm_env \<Rightarrow> Operation \<Rightarrow> bm_goto \<Rightarrow> (trap + bm_state) option" where
  "run_goto fuel env op (Trapped t) = Some (Inl t)"
| "run_goto fuel env op (Goto_Done st) = Some (Inr (done_label st))"
| "run_goto fuel env op (Goto_Return_Results st) = Some (Inr (done_label (return_results env op st)))"
| "run_goto 0 env op (Goto_Retry st) = None"
| "run_goto (Suc fuel) env op (Goto_Retry st) = run_goto fuel env op (retry_label env op st)"

text \<open>
  The state at the entry of the function: \<open>Entry dummy = {0}\<close>, no entry, no
  transaction, and the store, the entries of the cache and the modification list of
  the operation as the caller has them.
\<close>

definition initial_state :: "heap \<Rightarrow> (nat \<Rightarrow> Entry option) \<Rightarrow> nat \<Rightarrow> Modification list \<Rightarrow> bm_state" where
  "initial_state h ents ebrk ml =
     \<lparr>b_heap = h, b_entries = ents, b_ebrk = ebrk, b_trace = [], b_e = None, b_ltid = False,
      b_dummy = \<lparr>e_id = 0, e_name = [], e_nname = [], e_attrs = None, e_ocflags = 0,
                 e_private = False\<rparr>,
      b_fakeroot = False, b_num_retries = 0, b_preread = False, b_postread = False,
      b_num_ctrls = 0, b_rs = \<lparr>sr_err = 0, sr_ctrls_set = False\<rparr>, b_modlist = ml\<rparr>"

definition bdb_modify ::
  "nat \<Rightarrow> bm_env \<Rightarrow> Operation \<Rightarrow> heap \<Rightarrow> (nat \<Rightarrow> Entry option) \<Rightarrow> nat \<Rightarrow> (trap + bm_state) option" where
  "bdb_modify fuel env op h ents ebrk =
     (let ml = (if \<not> o_shadow op then slap_mods_opattrs env (orm_modlist op) else orm_modlist op)
      in run_goto fuel env op (begin_label env op (initial_state h ents ebrk ml)))"

subsection \<open>Notions for the properties of \<open>bdb_modify\<close>\<close>






text \<open>The value returned and the trace of a run.\<close>

definition reply_and_trace :: "(trap + bm_state) option \<Rightarrow> (trap + int \<times> bm_event list) option" where
  "reply_and_trace res = map_option (map_sum id (\<lambda>st. (sr_err (b_rs st), b_trace st))) res"

text \<open>The cached entry at address \<open>a\<close> and the cell of its attribute list, after a run.\<close>

definition cached_after :: "nat \<Rightarrow> (trap + bm_state) option \<Rightarrow> (Entry option \<times> Attribute list option) option" where
  "cached_after a res =
     (case res of
        Some (Inr st) \<Rightarrow>
          Some (b_entries st a,
                case b_entries st a of None \<Rightarrow> None
                | Some en \<Rightarrow> (case e_attrs en of None \<Rightarrow> None | Some p \<Rightarrow> cells (b_heap st) p))
      | _ \<Rightarrow> None)"

subsection \<open>Example inputs\<close>

definition epoch_tm :: tm where
  "epoch_tm = \<lparr>tm_sec = 0, tm_min = 0, tm_hour = 0, tm_mday = 1, tm_mon = 0, tm_year = 70\<rparr>"

definition utc_build :: lm_build where
  "utc_build = \<lparr>ldap_localtime = False, gmtime = (\<lambda>_. epoch_tm), localtime = (\<lambda>_. epoch_tm)\<rparr>"

definition master_backend :: Backend_lm where
  "master_backend = \<lparr>be_has_modify = True, be_lastmod = ON, be_update_ndn = None\<rparr>"

definition user_modifytimestamp :: LDAPMod where
  "user_modifytimestamp =
     \<lparr>mod_op = LDAP_MOD_REPLACE, mod_type = ''modifytimestamp'',
      mod_bvalues = Some [''19990101000000Z'']\<rparr>"

definition user_modifiersname :: LDAPMod where
  "user_modifiersname =
     \<lparr>mod_op = LDAP_MOD_REPLACE, mod_type = ''modifiersname'',
      mod_bvalues = Some [''cn=somebody else'']\<rparr>"

text \<open>
  Modelled from the spec: \<open>modify_add_values\<close>, \<open>modify_delete_values\<close> and
  \<open>modify_replace_values\<close> (mods.c) are not among the sources. The specification,
  table of 4.1: ADD appends the values to the attribute and creates the attribute if
  absent, and a value already present is \<open>TYPE_OR_VALUE_EXISTS\<close> unless permissive;
  DELETE removes the listed values, or the whole attribute if there are none, and an
  attribute or value not present is \<open>NO_SUCH_ATTRIBUTE\<close> unless permissive; REPLACE
  removes the attribute and adds the values, if any. They serve as the collaborators
  of the example environment.
\<close>

definition LDAP_NO_SUCH_ATTRIBUTE :: int where "LDAP_NO_SUCH_ATTRIBUTE = 16"
definition LDAP_INAPPROPRIATE_MATCHING :: int where "LDAP_INAPPROPRIATE_MATCHING = 18"
definition LDAP_CONSTRAINT_VIOLATION :: int where "LDAP_CONSTRAINT_VIOLATION = 19"
definition LDAP_OBJECT_CLASS_VIOLATION :: int where "LDAP_OBJECT_CLASS_VIOLATION = 65"

definition new_attribute :: "Modification \<Rightarrow> Attribute" where
  "new_attribute m =
     \<lparr>a_desc = sm_desc m, a_vals = sm_values m, a_nvals = sm_nvalues m, a_flags = 0\<rparr>"

fun spec_add_values :: "Attribute list \<Rightarrow> Modification \<Rightarrow> bool \<Rightarrow> int \<times> Attribute list" where
  "spec_add_values [] m permissive = (LDAP_SUCCESS, [new_attribute m])"
| "spec_add_values (a # as) m permissive =
     (if a_desc a = sm_desc m
      then (if list_ex (\<lambda>v. v \<in> set (a_vals a)) (sm_values m) \<and> \<not> permissive
            then (LDAP_TYPE_OR_VALUE_EXISTS, a # as)
            else (LDAP_SUCCESS,
                  a\<lparr>a_vals := a_vals a @ filter (\<lambda>v. v \<notin> set (a_vals a)) (sm_values m),
                    a_nvals := a_nvals a @ filter (\<lambda>v. v \<notin> set (a_nvals a)) (sm_nvalues m)\<rparr> # as))
      else (case spec_add_values as m permissive of (rc, as') \<Rightarrow> (rc, a # as')))"

fun spec_delete_values :: "Attribute list \<Rightarrow> Modification \<Rightarrow> bool \<Rightarrow> int \<times> Attribute list" where
  "spec_delete_values [] m permissive =
     (if permissive then (LDAP_SUCCESS, []) else (LDAP_NO_SUCH_ATTRIBUTE, []))"
| "spec_delete_values (a # as) m permissive =
     (if a_desc a = sm_desc m
      then (if sm_values m = [] then (LDAP_SUCCESS, as)
            else if list_all (\<lambda>v. v \<in> set (a_vals a)) (sm_values m) \<or> permissive
            then (let a' = a\<lparr>a_vals := filter (\<lambda>v. v \<notin> set (sm_values m)) (a_vals a),
                              a_nvals := filter (\<lambda>v. v \<notin> set (sm_nvalues m)) (a_nvals a)\<rparr>
                  in (LDAP_SUCCESS, if a_vals a' = [] then as else a' # as))
            else (LDAP_NO_SUCH_ATTRIBUTE, a # as))
      else (case spec_delete_values as m permissive of (rc, as') \<Rightarrow> (rc, a # as')))"

definition spec_replace_values :: "Attribute list \<Rightarrow> Modification \<Rightarrow> bool \<Rightarrow> int \<times> Attribute list" where
  "spec_replace_values xs m permissive =
     (let ys = filter (\<lambda>a. a_desc a \<noteq> sm_desc m) xs
      in (LDAP_SUCCESS, if sm_values m = [] then ys else ys @ [new_attribute m]))"

text \<open>
  The \<open>value_match\<close> of the example environments. It answers as the comparisons of
  the C library do, whose result the sources test against 0 for equality
  (\<open>strcasecmp\<close>, \<open>strcmp\<close> in servers/slapd/modify.c): 0 in \<open>match\<close> for a value
  equal to the asserted one, 1 otherwise. It is one instance of the parameter
  \<open>value_match\<close>, used in examples only.
\<close>

definition value_match_cmp :: "berval option \<Rightarrow> berval \<Rightarrow> int" where
  "value_match_cmp v1 v2 = (if v1 = Some v2 then 0 else 1)"

text \<open>
  An environment: access is granted, three attributes are indexed, the operational
  attributes are the usual ones, increments are refused, the schema check and the
  index store succeed.
\<close>

definition example_env :: bmi_env where
  "example_env =
     \<lparr>acl_check_modlist = (\<lambda>_ _ _. True),
      value_match = value_match_cmp,
      is_at_operational = (\<lambda>d. d \<in> set [''structuralObjectClass'', ''modifiersName'',
         ''modifyTimestamp'', ''creatorsName'', ''createTimestamp'', ''entryUUID'', ''entryCSN'']),
      modify_add_values = spec_add_values,
      modify_delete_values = spec_delete_values,
      modify_replace_values = spec_replace_values,
      modify_increment_values = (\<lambda>xs _ _. (LDAP_CONSTRAINT_VIOLATION, xs)),
      bdb_index_is_indexed = (\<lambda>d. if d \<in> set [''cn'', ''description'', ''objectClass'']
                                   then LDAP_SUCCESS else LDAP_INAPPROPRIATE_MATCHING),
      entry_schema_check = (\<lambda>_ _ _. LDAP_SUCCESS),
      bdb_index_values = (\<lambda>_ _ _ _. LDAP_SUCCESS)\<rparr>"

text \<open>The same, with a schema check that refuses every entry.\<close>

definition strict_env :: bmi_env where
  "strict_env = example_env\<lparr>entry_schema_check := (\<lambda>_ _ _. LDAP_OBJECT_CLASS_VIOLATION)\<rparr>"

definition example_op :: Operation where
  "example_op =
     \<lparr>o_noop = False, o_permissiveModify = False, o_manageDIT = False, o_manageDSAit = False,
      o_assert = False, o_preread = False, o_postread = False, o_shadow = False,
      o_req_dn = ''cn=a,dc=x'', o_req_ndn = ''cn=a,dc=x'', orm_modlist = []\<rparr>"

text \<open>The entry \<open>cn=a,dc=x\<close> with \<open>description: old\<close>, its attribute list at address 0.\<close>

definition description_old :: Attribute where
  "description_old =
     \<lparr>a_desc = ''description'', a_vals = [''old''], a_nvals = [''old''], a_flags = 0\<rparr>"

definition example_heap :: heap where
  "example_heap = \<lparr>cells = (\<lambda>a. if a = 0 then Some [description_old] else None), brk = 1\<rparr>"

definition example_entry :: Entry where
  "example_entry =
     \<lparr>e_id = 7, e_name = ''cn=a,dc=x'', e_nname = ''cn=a,dc=x'', e_attrs = Some 0,
      e_ocflags = 0, e_private = True\<rparr>"

definition add_description_new :: Modification where
  "add_description_new =
     \<lparr>sm_op = LDAP_MOD_ADD, sm_desc = ''description'', sm_values = [''new''],
      sm_nvalues = [''new'']\<rparr>"

definition softadd_description_old :: Modification where
  "softadd_description_old =
     \<lparr>sm_op = SLAP_MOD_SOFTADD, sm_desc = ''description'', sm_values = [''old''],
      sm_nvalues = [''old'']\<rparr>"

definition replace_soc :: "berval list \<Rightarrow> Modification" where
  "replace_soc vs =
     \<lparr>sm_op = LDAP_MOD_REPLACE, sm_desc = si_ad_structuralObjectClass, sm_values = vs,
      sm_nvalues = vs\<rparr>"

text \<open>The example environment with an index store that fails.\<close>

definition failing_index_env :: bmi_env where
  "failing_index_env = example_env\<lparr>bdb_index_values := (\<lambda>_ _ _ _. LDAP_OTHER)\<rparr>"

text \<open>
  An environment of \<open>bdb_modify\<close> in which nothing fails: every transaction call
  answers 0, the DN resolves to the cached entry at address 0, which is neither glue
  nor a referral, \<open>slap_mods_opattrs\<close> adds nothing, and \<open>bdb_modify_internal\<close> has the
  example environment.
\<close>

definition example_bm_env :: bm_env where
  "example_bm_env =
     \<lparr>slap_mods_opattrs = (\<lambda>ml. ml),
      txn_begin = (\<lambda>_. 0), txn_begin_nested = (\<lambda>_. 0), txn_abort_retry = (\<lambda>_. 0),
      txn_abort_noop = (\<lambda>_. 0), txn_commit_nested = (\<lambda>_. 0), txn_commit = (\<lambda>_. 0),
      o_abandon = (\<lambda>_. False),
      bdb_dn2entry = (\<lambda>_. (0, Some (Some 0))),
      is_entry_glue = (\<lambda>_ _. False), is_entry_referral = (\<lambda>_ _. False),
      test_filter = (\<lambda>_ _. LDAP_COMPARE_TRUE),
      read_controls_pre = (\<lambda>_. (0, 0)), read_controls_post = (\<lambda>_. (0, 0)),
      modify_env = (\<lambda>_. example_env), boi_err = (\<lambda>_. 0),
      bdb_id2entry_update = (\<lambda>_. 0), bdb_cache_modify = (\<lambda>_. 0), bi_txn_cp = False\<rparr>"

definition example_entries :: "nat \<Rightarrow> Entry option" where
  "example_entries = (\<lambda>a. if a = 0 then Some example_entry else None)"

text \<open>The operation \<open>ADD description: new\<close> on \<open>cn=a,dc=x\<close>, and the same as a no-op.\<close>

definition add_op :: Operation where
  "add_op = example_op\<lparr>orm_modlist := [add_description_new]\<rparr>"

definition noop_add_op :: Operation where
  "noop_add_op = add_op\<lparr>o_noop := True\<rparr>"

text \<open>
  The root is not in the database: the resolution of the empty DN answers
  \<open>DB_NOTFOUND\<close>. The entries made for it count as glue, as their object class says.
\<close>

definition rootless_bm_env :: bm_env where
  "rootless_bm_env =
     example_bm_env\<lparr>bdb_dn2entry := (\<lambda>_. (DB_NOTFOUND, Some None)),
                    is_entry_glue := (\<lambda>_ xs. list_ex (\<lambda>a. a_desc a = si_ad_objectClass
                                                     \<and> ''glue'' \<in> set (a_vals a)) xs)\<rparr>"

definition root_op :: Operation where
  "root_op = example_op\<lparr>o_req_dn := [], o_req_ndn := [], o_manageDSAit := True,
                        orm_modlist := [add_description_new]\<rparr>"



text \<open>
  The request with a pre-read control, and a \<open>slap_read_controls\<close> that fails on
  it and leaves no error in the reply.
\<close>

definition preread_root_op :: Operation where
  "preread_root_op = root_op\<lparr>o_preread := True\<rparr>"

definition silent_preread_env :: bm_env where
  "silent_preread_env = rootless_bm_env\<lparr>read_controls_pre := (\<lambda>_. (1, 0))\<rparr>"


section \<open>Properties of \<open>add_lastmods\<close>\<close>

lemmas ldap_codes =
  LDAP_SUCCESS_def LDAP_REFERRAL_def LDAP_TYPE_OR_VALUE_EXISTS_def
  LDAP_INSUFFICIENT_ACCESS_def LDAP_BUSY_def LDAP_OTHER_def LDAP_ASSERTION_FAILED_def
  LDAP_COMPARE_TRUE_def LDAP_X_NO_OPERATION_def SLAPD_ABANDON_def DB_LOCK_DEADLOCK_def
  DB_LOCK_NOTGRANTED_def DB_NOTFOUND_def

lemmas mod_codes =
  LDAP_MOD_ADD_def LDAP_MOD_DELETE_def LDAP_MOD_REPLACE_def LDAP_MOD_INCREMENT_def
  SLAP_MOD_SOFTADD_def

lemma digit_char_0: "digit_char 0 = CHR ''0''"
  by code_simp

lemma dec_nat_1: "n < 10 \<Longrightarrow> dec_nat n = [digit_char n]"
  by (simp add: dec_nat.simps)

lemma dec_nat_2: "10 \<le> n \<Longrightarrow> n < 100 \<Longrightarrow> dec_nat n = [digit_char (n div 10), digit_char (n mod 10)]"
  by (subst dec_nat.simps) (simp add: dec_nat_1)

lemma dec_nat_4:
  assumes "1000 \<le> n" "n < 10000"
  shows "dec_nat n = [digit_char (n div 1000 mod 10), digit_char (n div 100 mod 10),
                      digit_char (n div 10 mod 10), digit_char (n mod 10)]"
proof -
  have n10: "\<not> n < 10" "\<not> n div 10 < 10" "10 \<le> n div 100" "n div 100 < 100"
    using assms by simp_all
  have e: "n div 10 div 10 = n div 100" "n div 100 div 10 = n div 1000"
    by (simp_all add: div_mult2_eq [symmetric])
  have k: "n div 1000 mod 10 = n div 1000"
    using assms by simp
  have a: "dec_nat n = dec_nat (n div 10) @ [digit_char (n mod 10)]"
    using n10 by (subst dec_nat.simps) simp
  have b: "dec_nat (n div 10) = dec_nat (n div 100) @ [digit_char (n div 10 mod 10)]"
    using n10 e by (subst dec_nat.simps) simp
  have c: "dec_nat (n div 100) = [digit_char (n div 1000), digit_char (n div 100 mod 10)]"
    using n10 e dec_nat_2 [of "n div 100"] by simp
  show ?thesis by (simp add: a b c k)
qed

lemma pad2_digits:
  assumes "0 \<le> i" "i < 100"
  shows "pad2 i = [digit_char (nat i div 10 mod 10), digit_char (nat i mod 10)]"
proof (cases "i < 10")
  case True
  then show ?thesis using assms
    by (simp add: pad2_def dec_int_def dec_nat_1 digit_char_0)
next
  case False
  then have "10 \<le> nat i" "nat i < 100" using assms by auto
  then show ?thesis using False assms
    by (simp add: pad2_def dec_int_def dec_nat_2)
qed

lemma strftime_utc:
  assumes "tm_in_range t"
  shows "strftime_lastmod False t =
           Some (YYYYMMDDhhmmssZ (nat (tm_year t + 1900)) (nat (tm_mon t + 1)) (nat (tm_mday t))
                   (nat (tm_hour t)) (nat (tm_min t)) (nat (tm_sec t)))"
proof -
  have y: "dec_int (tm_year t + 1900) =
      [digit_char (nat (tm_year t + 1900) div 1000 mod 10), digit_char (nat (tm_year t + 1900) div 100 mod 10),
       digit_char (nat (tm_year t + 1900) div 10 mod 10), digit_char (nat (tm_year t + 1900) mod 10)]"
  proof -
    have "1000 \<le> nat (tm_year t + 1900)" "nat (tm_year t + 1900) < 10000" "\<not> tm_year t + 1900 < 0"
      using assms unfolding tm_in_range_def by linarith+
    then show ?thesis
      by (simp add: dec_int_def dec_nat_4)
  qed
  have m: "pad2 (tm_mon t + 1) = [digit_char (nat (tm_mon t + 1) div 10 mod 10), digit_char (nat (tm_mon t + 1) mod 10)]"
    using assms by (intro pad2_digits) (simp_all add: tm_in_range_def)
  have d: "pad2 (tm_mday t) = [digit_char (nat (tm_mday t) div 10 mod 10), digit_char (nat (tm_mday t) mod 10)]"
    using assms by (intro pad2_digits) (simp_all add: tm_in_range_def)
  have h: "pad2 (tm_hour t) = [digit_char (nat (tm_hour t) div 10 mod 10), digit_char (nat (tm_hour t) mod 10)]"
    using assms by (intro pad2_digits) (simp_all add: tm_in_range_def)
  have mi: "pad2 (tm_min t) = [digit_char (nat (tm_min t) div 10 mod 10), digit_char (nat (tm_min t) mod 10)]"
    using assms by (intro pad2_digits) (simp_all add: tm_in_range_def)
  have s: "pad2 (tm_sec t) = [digit_char (nat (tm_sec t) div 10 mod 10), digit_char (nat (tm_sec t) mod 10)]"
    using assms by (intro pad2_digits) (simp_all add: tm_in_range_def)
  show ?thesis
    by (simp add: strftime_lastmod_def y m d h mi s YYYYMMDDhhmmssZ_def)
qed


text \<open>
  C4, at a list with two adjacent modifications of maintained attributes, on a master
  backend with lastmod on: the loop unlinks the user's \<open>modifytimestamp\<close> and steps
  over the user's \<open>modifiersname\<close> that follows it, which therefore stays in the list
  handed to the backend, behind the two modifications the function prepends.
\<close>

theorem add_lastmods_keeps_adjacent_lastmod:
  "remove_lastmods [user_modifytimestamp, user_modifiersname] = [user_modifiersname]
   \<and> is_lastmod_type (mod_type user_modifiersname)
   \<and> do_modify_dispatch utc_build master_backend ON (Some ''cn=Manager'') ''CN=MANAGER'' 0
         [user_modifytimestamp, user_modifiersname]
       = Some (Be_Modify
                 [\<lparr>mod_op = 2, mod_type = ''modifytimestamp'', mod_bvalues = Some [''19700101000000Z'']\<rparr>,
                  \<lparr>mod_op = 2, mod_type = ''modifiersname'', mod_bvalues = Some [''cn=Manager'']\<rparr>,
                  user_modifiersname]
                 [Mutex_Lock, Read_Currenttime, Mutex_Unlock])"
  by code_simp

text \<open>
  C7: in the build without \<open>LDAP_LOCALTIME\<close>, for a broken-down time of the years
  1000 to 9999, \<open>add_lastmods\<close> returns the list with two modifications in front of
  what the removal loop left: a REPLACE of \<open>modifytimestamp\<close> whose single value is
  the \<open>gmtime\<close> of the global in the format \<open>YYYYMMDDhhmmssZ\<close>, and a REPLACE of
  \<open>modifiersname\<close> whose single value is the bound DN, or \<open>NULLDN\<close> when the DN is
  \<open>NULL\<close> or empty. In the trace the global is read with the mutex held.
\<close>

theorem add_lastmods_prepends:
  assumes "\<not> ldap_localtime b" and "tm_in_range (gmtime b now)"
  shows "\<exists>tr. add_lastmods b o_dn now mods =
           Some (\<lparr>mod_op = LDAP_MOD_REPLACE, mod_type = ''modifytimestamp'',
                  mod_bvalues = Some [YYYYMMDDhhmmssZ (nat (tm_year (gmtime b now) + 1900))
                     (nat (tm_mon (gmtime b now) + 1)) (nat (tm_mday (gmtime b now)))
                     (nat (tm_hour (gmtime b now))) (nat (tm_min (gmtime b now)))
                     (nat (tm_sec (gmtime b now)))]\<rparr>
                 # \<lparr>mod_op = LDAP_MOD_REPLACE, mod_type = ''modifiersname'',
                    mod_bvalues = Some [if o_dn = None \<or> o_dn = Some [] then ''NULLDN''
                                        else the o_dn]\<rparr>
                 # remove_lastmods mods, tr)
         \<and> reads_under_lock False tr"
proof -
  have v: "modifiers_value o_dn = (if o_dn = None \<or> o_dn = Some [] then ''NULLDN'' else the o_dn)"
    by (cases o_dn) (simp_all add: modifiers_value_def)
  show ?thesis
    using assms
    by (simp add: add_lastmods_def strftime_utc new_replace_mod_def v Let_def)
qed

theorem add_lastmods_prepends_witness:
  "\<not> ldap_localtime utc_build \<and> tm_in_range (gmtime utc_build 0)
   \<and> (\<exists>tr. add_lastmods utc_build None 0 [user_modifytimestamp] =
           Some ([\<lparr>mod_op = LDAP_MOD_REPLACE, mod_type = ''modifytimestamp'',
                    mod_bvalues = Some [YYYYMMDDhhmmssZ 1970 1 1 0 0 0]\<rparr>,
                  \<lparr>mod_op = LDAP_MOD_REPLACE, mod_type = ''modifiersname'',
                    mod_bvalues = Some [''NULLDN'']\<rparr>], tr)
         \<and> reads_under_lock False tr)"
proof -
  have h1: "\<not> ldap_localtime utc_build"
    by (simp add: utc_build_def)
  have h2: "tm_in_range (gmtime utc_build 0)"
    by (simp add: utc_build_def epoch_tm_def tm_in_range_def)
  have r: "is_lastmod_type (mod_type user_modifytimestamp)"
    by code_simp
  show ?thesis
    using add_lastmods_prepends [OF h1 h2, of None "[user_modifytimestamp]"] h1 h2
    by (simp add: r utc_build_def epoch_tm_def)
qed


section \<open>Properties of \<open>bdb_modify_internal\<close>\<close>

subsection \<open>The store and the loops\<close>

lemma attrs_of_alloc:
  "attrs_of (fst (attrs_alloc h xs)) (snd (attrs_alloc h xs)) = xs"
  by (simp add: attrs_alloc_def attrs_of_def)

lemma attrs_of_store:
  "attrs_of (fst (attrs_store h p xs)) (snd (attrs_store h p xs)) = xs"
  by (cases p) (simp_all add: attrs_store_def attrs_of_alloc, simp add: attrs_of_def attrs_free_def)

lemma attrs_of_dup:
  "attrs_of (fst (attrs_dup h p)) (snd (attrs_dup h p)) = attrs_of h p"
  by (simp add: attrs_dup_def attrs_of_alloc)

lemma apply_mod_keeps_mod:
  assumes "apply_mod env perm g xs m = Inr (err, xs', m')"
  shows "m' = m"
  using assms
  by (auto simp: apply_mod_def Let_def split: if_splits prod.splits)

lemma apply_mods_modlist:
  "apply_mods env op g save ml st = Inr (err, ml', st') \<Longrightarrow> ml' = ml"
proof (induction ml arbitrary: st err ml' st')
  case Nil
  then show ?case by simp
next
  case (Cons m ml)
  then show ?case
    by (auto simp: Let_def split: sum.splits prod.splits if_splits dest: apply_mod_keeps_mod)
qed

lemma glue_scan_flag:
  "fst (glue_scan vm ml) \<longleftrightarrow>
     (\<exists>m\<in>set ml. (sm_op m = LDAP_MOD_ADD \<or> sm_op m = LDAP_MOD_REPLACE)
        \<and> sm_desc m = si_ad_structuralObjectClass \<and> vm (first_value m) (hd scbva) = 0)"
  by (induction ml) auto

lemma glue_scan_cong:
  "map (\<lambda>m. (sm_op m, sm_desc m, first_value m)) ml = map (\<lambda>m. (sm_op m, sm_desc m, first_value m)) ml'
   \<Longrightarrow> glue_scan vm ml = glue_scan vm ml'"
proof (induction ml arbitrary: ml')
  case Nil
  then show ?case by simp
next
  case (Cons m ml)
  then obtain m' ml2 where ml': "ml' = m' # ml2" by (cases ml') auto
  with Cons.prems have "sm_op m = sm_op m'" "sm_desc m = sm_desc m'" "first_value m = first_value m'"
    "map (\<lambda>m. (sm_op m, sm_desc m, first_value m)) ml = map (\<lambda>m. (sm_op m, sm_desc m, first_value m)) ml2"
    by simp_all
  then show ?case using Cons.IH [of ml2] ml' by simp
qed

lemma glue_scan_stops:
  assumes "\<not> fst (glue_scan vm pre)"
    and "sm_op m = LDAP_MOD_ADD \<or> sm_op m = LDAP_MOD_REPLACE"
    and "sm_desc m = si_ad_structuralObjectClass"
    and "vm (first_value m) (hd scbva) = 0"
  shows "glue_scan vm (pre @ m # post) = (True, snd (glue_scan vm pre) @ [first_value m])"
  using assms
  by (induction pre) (auto simp: split_def)

lemma dup_inv_init:
  assumes "heap_ok h" "valid_ptr h save" "attrs_dup h save = (h1, p1)"
  shows "dup_inv h save h1 p1"
  using assms
  by (auto simp: dup_inv_def heap_ok_def valid_ptr_def attrs_dup_def attrs_alloc_def attrs_of_def
      split: if_splits option.splits) (metis not_le option.distinct(1))+


lemma dup_inv_store:
  assumes "dup_inv h save h' p'" "attrs_store h' p' xs = (h1, p1)"
  shows "dup_inv h save h1 p1"
proof (cases p')
  case None
  show ?thesis
  proof (cases "xs = []")
    case True
    with None assms show ?thesis by (simp add: attrs_store_def attrs_alloc_def)
  next
    case False
    with None assms(2) have h1: "h1 = h'\<lparr>cells := (cells h')(brk h' := Some xs), brk := Suc (brk h')\<rparr>"
      and p1: "p1 = Some (brk h')"
      by (simp_all add: attrs_store_def attrs_alloc_def)
    from assms(1) have ok: "heap_ok h'" and le: "brk h \<le> brk h'" by (simp_all add: dup_inv_def)
    from ok have fresh: "cells h' (brk h') = None" by (simp add: heap_ok_def)
    show ?thesis
      using assms(1) None le fresh unfolding h1 p1 dup_inv_def heap_ok_def attrs_of_def
      by (auto split: option.splits)
  qed
next
  case (Some d)
  show ?thesis
  proof (cases "xs = []")
    case True
    with Some assms(2) have h1: "h1 = h'\<lparr>cells := (cells h')(d := None)\<rparr>" and p1: "p1 = None"
      by (simp_all add: attrs_store_def attrs_free_def)
    show ?thesis
      using assms(1) Some unfolding h1 p1 dup_inv_def heap_ok_def attrs_of_def
      by (auto split: option.splits)
  next
    case False
    with Some assms(2) have h1: "h1 = h'\<lparr>cells := (cells h')(d := Some xs)\<rparr>" and p1: "p1 = Some d"
      by (simp_all add: attrs_store_def)
    show ?thesis
      using assms(1) Some unfolding h1 p1 dup_inv_def heap_ok_def attrs_of_def
      by (auto split: option.splits)
  qed
qed

lemma dup_inv_update_save:
  assumes "dup_inv h save h' p'"
    and "map attr_data (f (attrs_of h' save)) = map attr_data (attrs_of h' save)"
  shows "dup_inv h save (attrs_update h' save f) p'"
proof (cases save)
  case None
  with assms show ?thesis by (simp add: attrs_update_def)
next
  case (Some s)
  with assms(1) obtain ys where ys: "cells h' s = Some ys" by (auto simp: dup_inv_def)
  have u: "attrs_update h' save f = h'\<lparr>cells := (cells h')(s := Some (f ys))\<rparr>"
    using Some ys by (simp add: attrs_update_def)
  have d: "map attr_data (f ys) = map attr_data ys"
    using assms(2) Some ys by (simp add: attrs_of_def)
  show ?thesis
    using assms(1) Some ys d unfolding u dup_inv_def heap_ok_def attrs_of_def
    by (auto split: option.splits)
qed

lemma restored_update_save:
  assumes "restored h save hf"
    and "map attr_data (f (attrs_of hf save)) = map attr_data (attrs_of hf save)"
  shows "restored h save (attrs_update hf save f)"
proof (cases save)
  case None
  with assms show ?thesis by (simp add: attrs_update_def)
next
  case (Some s)
  show ?thesis
  proof (cases "cells hf s")
    case None
    with Some assms show ?thesis by (simp add: attrs_update_def)
  next
    case (Some ys)
    have u: "attrs_update hf save f = hf\<lparr>cells := (cells hf)(s := Some (f ys))\<rparr>"
      using Some \<open>save = Some s\<close> by (simp add: attrs_update_def)
    have d: "map attr_data (f ys) = map attr_data ys"
      using assms(2) Some \<open>save = Some s\<close> by (simp add: attrs_of_def)
    show ?thesis
      using assms(1) \<open>save = Some s\<close> Some d unfolding u restored_def attrs_of_def
      by (auto split: option.splits)
  qed
qed

lemma dup_inv_update_dup:
  assumes "dup_inv h save h' p'"
  shows "dup_inv h save (attrs_update h' p' f) p'"
proof (cases p')
  case None
  with assms show ?thesis by (simp add: attrs_update_def)
next
  case (Some d)
  show ?thesis
  proof (cases "cells h' d")
    case None
    with Some assms show ?thesis by (simp add: attrs_update_def)
  next
    case (Some ys)
    have u: "attrs_update h' p' f = h'\<lparr>cells := (cells h')(d := Some (f ys))\<rparr>"
      using Some \<open>p' = Some d\<close> by (simp add: attrs_update_def)
    show ?thesis
      using assms \<open>p' = Some d\<close> Some unfolding u dup_inv_def heap_ok_def attrs_of_def
      by (auto split: option.splits)
  qed
qed

lemma dup_inv_free:
  assumes "dup_inv h save h' p'"
  shows "restored h save (attrs_free h' p')"
proof (cases p')
  case None
  with assms show ?thesis
    by (auto simp: attrs_free_def restored_def dup_inv_def)
next
  case (Some d)
  from assms Some have fresh: "cells h d = None"
    by (auto simp: dup_inv_def heap_ok_def) 
  show ?thesis
    using assms Some fresh unfolding attrs_free_def restored_def dup_inv_def attrs_of_def
    by (auto split: option.splits)
qed


lemma flag_first_data: "map attr_data (flag_first d f xs) = map attr_data xs"
  by (induction xs) (simp_all add: attr_data_def)

lemma apply_mods_inv:
  assumes "apply_mods env op g save ml st = Inr (err, ml', st')"
    and "dup_inv h save (st_heap st) (st_e_attrs st)"
  shows "if err \<noteq> LDAP_SUCCESS
         then restored h save (st_heap st') \<and> st_e_attrs st' = save
         else dup_inv h save (st_heap st') (st_e_attrs st')"
  using assms
proof (induction ml arbitrary: st err ml' st')
  case Nil
  then show ?case by simp
next
  case (Cons m ml)
  from Cons.prems(1) obtain e1 xs1 m1 where am:
    "apply_mod env (o_permissiveModify op) g (attrs_of (st_heap st) (st_e_attrs st)) m = Inr (e1, xs1, m1)"
    by (auto split: sum.splits)
  obtain h1 p1 where st1: "attrs_store (st_heap st) (st_e_attrs st) xs1 = (h1, p1)"
    by (cases "attrs_store (st_heap st) (st_e_attrs st) xs1")
  have inv1: "dup_inv h save h1 p1"
    using dup_inv_store [OF Cons.prems(2) st1] .
  show ?case
  proof (cases "e1 = LDAP_SUCCESS")
    case False
    with Cons.prems(1) am st1 have "err = e1" "st' = st\<lparr>st_heap := attrs_free h1 p1, st_e_attrs := save\<rparr>"
      by simp_all
    with False dup_inv_free [OF inv1] show ?thesis by simp
  next
    case True
    define h2 where "h2 = (if bdb_index_is_indexed env (sm_desc m1) = LDAP_SUCCESS \<and> \<not> o_noop op
                           then attrs_update
                                  (attrs_update h1 save (flag_first (sm_desc m1) SLAP_ATTR_IXDEL))
                                  p1 (flag_first (sm_desc m1) SLAP_ATTR_IXADD)
                           else h1)"
    define oc2 where "oc2 = (if g then 0 else (if sm_desc m1 = si_ad_objectClass then 0 else st_e_ocflags st))"
    have inv2: "dup_inv h save h2 p1"
      unfolding h2_def
      by (simp add: inv1 dup_inv_update_dup dup_inv_update_save flag_first_data)
    from Cons.prems(1) am st1 True obtain ml2 where
      rec: "apply_mods env op g save ml \<lparr>st_heap = h2, st_e_attrs = p1, st_e_ocflags = oc2\<rparr> = Inr (err, ml2, st')"
      by (auto simp: Let_def h2_def oc2_def split: sum.splits)
    show ?thesis
      using Cons.IH [OF rec] inv2 by simp
  qed
qed

lemma index_loop_data:
  "index_loop env eid flag opc rc xs = (r, f, xs', calls) \<Longrightarrow> map attr_data xs' = map attr_data xs"
  by (induction xs arbitrary: r f xs' calls rc)
     (auto simp: Let_def attr_data_def split: if_splits prod.splits)

lemma index_loop_rc:
  "index_loop env eid flag opc rc xs = (r, f, xs', calls) \<Longrightarrow>
     (f \<longrightarrow> r \<noteq> LDAP_SUCCESS) \<and> (\<not> f \<longrightarrow> rc = LDAP_SUCCESS \<longrightarrow> r = LDAP_SUCCESS)"
  by (induction xs arbitrary: r f xs' calls rc)
     (auto simp: Let_def split: if_splits prod.splits)

lemma index_loop_calls:
  "index_loop env eid flag opc rc xs = (r, f, xs', calls) \<Longrightarrow> \<not> f \<Longrightarrow>
     calls = index_calls_for eid flag opc xs"
  by (induction xs arbitrary: r f xs' calls rc)
     (auto simp: Let_def index_calls_for_def split: if_splits prod.splits)

lemma index_loop_ops:
  "index_loop env eid flag opc rc xs = (r, f, xs', calls) \<Longrightarrow> \<forall>c\<in>set calls. ic_op c = opc"
  by (induction xs arbitrary: r f xs' calls rc) (auto simp: Let_def split: if_splits prod.splits)


lemma clear_flags_data: "map attr_data (map (\<lambda>ap. ap\<lparr>a_flags := 0\<rparr>) xs) = map attr_data xs"
  by (simp add: attr_data_def)

lemma after_mods_error:
  assumes inv: "dup_inv h save (st_heap st) (st_e_attrs st)"
    and err: "r_rc (after_mods env op e save ml st) \<noteq> LDAP_SUCCESS"
  shows "restored h save (r_heap (after_mods env op e save ml st))
         \<and> e_attrs (r_entry (after_mods env op e save ml st)) = save"
proof -
  define hh where "hh = st_heap st"
  define p where "p = st_e_attrs st"
  define rc where "rc = entry_schema_check env (attrs_of hh p) (attrs_of hh save) (o_manageDIT op)"
  have inv0: "dup_inv h save hh p" using inv by (simp add: hh_def p_def)
  show ?thesis
  proof (cases "rc \<noteq> LDAP_SUCCESS \<or> o_noop op")
    case True
    have "restored h save (attrs_update (attrs_free hh p) save (map (\<lambda>ap. ap\<lparr>a_flags := 0\<rparr>)))"
      by (rule restored_update_save [OF dup_inv_free [OF inv0]]) (rule clear_flags_data)
    with True show ?thesis
      by (simp add: after_mods_def Let_def hh_def p_def rc_def)
  next
    case False
    then have rc0: "rc = LDAP_SUCCESS" and nn: "\<not> o_noop op" by simp_all
    obtain rc1 f1 pre' dels where l1:
      "index_loop env (e_id e) SLAP_ATTR_IXDEL SLAP_INDEX_DELETE_OP rc (attrs_of hh save) = (rc1, f1, pre', dels)"
      by (cases "index_loop env (e_id e) SLAP_ATTR_IXDEL SLAP_INDEX_DELETE_OP rc (attrs_of hh save)") auto
    define h1 where "h1 = attrs_update hh save (\<lambda>_. pre')"
    have inv1: "dup_inv h save h1 p"
      unfolding h1_def by (rule dup_inv_update_save [OF inv0]) (simp add: index_loop_data [OF l1])
    show ?thesis
    proof (cases f1)
      case True
      with False l1 dup_inv_free [OF inv1] show ?thesis
        by (simp add: after_mods_def Let_def hh_def [symmetric] p_def [symmetric] rc_def [symmetric] h1_def)
    next
      case f1: False
      with index_loop_rc [OF l1] rc0 have rc1: "rc1 = LDAP_SUCCESS" by simp
      obtain rc2 f2 post' adds where l2:
        "index_loop env (e_id e) SLAP_ATTR_IXADD SLAP_INDEX_ADD_OP rc1 (attrs_of h1 p) = (rc2, f2, post', adds)"
        by (cases "index_loop env (e_id e) SLAP_ATTR_IXADD SLAP_INDEX_ADD_OP rc1 (attrs_of h1 p)") auto
      define h2 where "h2 = attrs_update h1 p (\<lambda>_. post')"
      have inv2: "dup_inv h save h2 p"
        unfolding h2_def by (rule dup_inv_update_dup [OF inv1])
      have res: "after_mods env op e save ml st =
          (if f2 then \<lparr>r_rc = rc2, r_entry = e\<lparr>e_attrs := save, e_ocflags := st_e_ocflags st\<rparr>,
                        r_heap = attrs_free h2 p, r_modlist = ml, r_index_calls = dels @ adds\<rparr>
           else \<lparr>r_rc = rc2, r_entry = e\<lparr>e_attrs := p, e_ocflags := st_e_ocflags st\<rparr>, r_heap = h2,
                  r_modlist = ml, r_index_calls = dels @ adds\<rparr>)"
        using False l1 f1 l2
        by (simp add: after_mods_def Let_def hh_def [symmetric] p_def [symmetric] rc_def [symmetric]
            h1_def [symmetric] h2_def [symmetric])
      show ?thesis
      proof (cases f2)
        case True
        with res dup_inv_free [OF inv2] show ?thesis by simp
      next
        case False
        with index_loop_rc [OF l2] rc1 have "rc2 = LDAP_SUCCESS" by simp
        with res False err show ?thesis by simp
      qed
    qed
  qed
qed


lemma pass1_inv:
  assumes "heap_ok h" "valid_ptr h (e_attrs e)" "pass1 env ml e h = (g, h2, p2)"
  shows "dup_inv h (e_attrs e) h2 p2"
proof -
  obtain h1 p1 where d: "attrs_dup h (e_attrs e) = (h1, p1)"
    by (cases "attrs_dup h (e_attrs e)")
  have i1: "dup_inv h (e_attrs e) h1 p1"
    using dup_inv_init [OF assms(1,2) d] .
  show ?thesis
  proof (cases "fst (glue_scan (value_match env) ml)")
    case True
    obtain h3 p3 where s: "attrs_store h1 p1 (purge_non_operational env (attrs_of h1 p1)) = (h3, p3)"
      by (cases "attrs_store h1 p1 (purge_non_operational env (attrs_of h1 p1))")
    from assms(3) d True s have "h2 = h3" "p2 = p3"
      by (simp_all add: pass1_def Let_def)
    with dup_inv_store [OF i1 s] show ?thesis by simp
  next
    case False
    with assms(3) d have "h2 = h1" "p2 = p1"
      by (simp_all add: pass1_def Let_def)
    with i1 show ?thesis by simp
  qed
qed

subsection \<open>Errors restore the attribute list\<close>

text \<open>
  C2: when \<open>bdb_modify_internal\<close> returns a code other than \<open>LDAP_SUCCESS\<close>, on
  whichever path, \<open>e->e_attrs\<close> is again the pointer it was at the call, the list it
  leads to has the attributes it had (descriptors, values and normalized values, in
  order), and every other cell of the store is as it was at the call: the duplicate is
  freed and nothing else is touched. The flag words of the saved list are the subject of
  the next subsection.
\<close>

theorem bdb_modify_internal_error_restores:
  assumes "heap_ok h" and "valid_ptr h (e_attrs e)"
    and "bdb_modify_internal env op ml e h = Inr r" and "r_rc r \<noteq> LDAP_SUCCESS"
  shows "e_attrs (r_entry r) = e_attrs e
         \<and> map attr_data (attrs_of (r_heap r) (e_attrs e)) = map attr_data (attrs_of h (e_attrs e))
         \<and> (\<forall>a. Some a \<noteq> e_attrs e \<longrightarrow> cells (r_heap r) a = cells h a)"
proof (cases "acl_check_modlist env e (attrs_of h (e_attrs e)) ml")
  case False
  with assms(3) show ?thesis
    by (auto simp: bdb_modify_internal_def)
next
  case True
  obtain g h2 p2 where p1: "pass1 env ml e h = (g, h2, p2)"
    by (cases "pass1 env ml e h")
  have inv: "dup_inv h (e_attrs e) h2 p2"
    using pass1_inv [OF assms(1,2) p1] .
  from assms(3) True p1 obtain err ml' st where
    am: "apply_mods env op g (e_attrs e) ml \<lparr>st_heap = h2, st_e_attrs = p2, st_e_ocflags = e_ocflags e\<rparr>
           = Inr (err, ml', st)"
    by (auto simp: bdb_modify_internal_def Let_def split: sum.splits)
  have post: "if err \<noteq> LDAP_SUCCESS
         then restored h (e_attrs e) (st_heap st) \<and> st_e_attrs st = e_attrs e
         else dup_inv h (e_attrs e) (st_heap st) (st_e_attrs st)"
    using apply_mods_inv [OF am] inv by simp
  have "restored h (e_attrs e) (r_heap r) \<and> e_attrs (r_entry r) = e_attrs e"
  proof (cases "err = LDAP_SUCCESS")
    case False
    with assms(3) True p1 am have
      "r = \<lparr>r_rc = err, r_entry = e\<lparr>e_attrs := st_e_attrs st, e_ocflags := st_e_ocflags st\<rparr>,
             r_heap = st_heap st, r_modlist = ml', r_index_calls = []\<rparr>"
      by (simp add: bdb_modify_internal_def Let_def)
    with post False show ?thesis by simp
  next
    case e0: True
    with assms(3) True p1 am have r: "r = after_mods env op e (e_attrs e) ml' st"
      by (simp add: bdb_modify_internal_def Let_def)
    from post e0 have "dup_inv h (e_attrs e) (st_heap st) (st_e_attrs st)" by simp
    from after_mods_error [OF this] assms(4) r show ?thesis by simp
  qed
  then show ?thesis by (simp add: restored_def)
qed

subsection \<open>The operation codes of the modification list\<close>

text \<open>
  C10: the modification list that \<open>bdb_modify_internal\<close> leaves is the list it was
  given, so every \<open>sm_op\<close> is what it was. In the \<open>SLAP_MOD_SOFTADD\<close> case
  \<open>modify_add_values\<close> is called on the modification with \<open>sm_op\<close> rewritten to
  \<open>LDAP_MOD_ADD\<close>, and whatever code it gives, the case leaves the modification
  with \<open>SLAP_MOD_SOFTADD\<close> again.
\<close>

theorem bdb_modify_internal_keeps_ops:
  "(bdb_modify_internal env op ml e h = Inr r \<longrightarrow> r_modlist r = ml)
   \<and> (sm_op m = SLAP_MOD_SOFTADD \<longrightarrow>
        apply_mod env permissive g xs m =
          Inr (if fst (modify_add_values env xs (m\<lparr>sm_op := LDAP_MOD_ADD\<rparr>) permissive)
                    = LDAP_TYPE_OR_VALUE_EXISTS
               then LDAP_SUCCESS
               else fst (modify_add_values env xs (m\<lparr>sm_op := LDAP_MOD_ADD\<rparr>) permissive),
               snd (modify_add_values env xs (m\<lparr>sm_op := LDAP_MOD_ADD\<rparr>) permissive), m))"
proof (intro conjI impI)
  assume a: "bdb_modify_internal env op ml e h = Inr r"
  show "r_modlist r = ml"
  proof (cases "acl_check_modlist env e (attrs_of h (e_attrs e)) ml")
    case False
    with a show ?thesis by (auto simp: bdb_modify_internal_def)
  next
    case True
    obtain g h2 p2 where p1: "pass1 env ml e h = (g, h2, p2)"
      by (cases "pass1 env ml e h")
    from a True p1 obtain err ml' st where
      am: "apply_mods env op g (e_attrs e) ml \<lparr>st_heap = h2, st_e_attrs = p2, st_e_ocflags = e_ocflags e\<rparr>
           = Inr (err, ml', st)"
      by (auto simp: bdb_modify_internal_def Let_def split: sum.splits)
    have ml': "ml' = ml" using apply_mods_modlist [OF am] .
    have am_ml: "r_modlist (after_mods env op e (e_attrs e) ml' st) = ml'"
      by (simp add: after_mods_def Let_def split: prod.splits)
    from a True p1 am ml' am_ml show ?thesis
      by (auto simp: bdb_modify_internal_def Let_def split: if_splits)
  qed
next
  assume "sm_op m = SLAP_MOD_SOFTADD"
  then show "apply_mod env permissive g xs m =
          Inr (if fst (modify_add_values env xs (m\<lparr>sm_op := LDAP_MOD_ADD\<rparr>) permissive)
                    = LDAP_TYPE_OR_VALUE_EXISTS
               then LDAP_SUCCESS
               else fst (modify_add_values env xs (m\<lparr>sm_op := LDAP_MOD_ADD\<rparr>) permissive),
               snd (modify_add_values env xs (m\<lparr>sm_op := LDAP_MOD_ADD\<rparr>) permissive), m)"
    by (simp add: apply_mod_def mod_codes Let_def split_def)
qed


lemma hd_scbva: "hd scbva = ''glue''"
  by (simp add: scbva_def)

subsection \<open>Pass 1\<close>

lemma bdb_modify_internal_after_pass1:
  assumes "acl_check_modlist env e (attrs_of h (e_attrs e)) ml"
    and "pass1 env ml e h = (g, h2, p2)"
  shows "bdb_modify_internal env op ml e h =
           (case apply_mods env op g (e_attrs e) ml
                   \<lparr>st_heap = h2, st_e_attrs = p2, st_e_ocflags = e_ocflags e\<rparr> of
              Inl t \<Rightarrow> Inl t
            | Inr (err, ml', st) \<Rightarrow>
                if err \<noteq> LDAP_SUCCESS
                then Inr \<lparr>r_rc = err,
                          r_entry = e\<lparr>e_attrs := st_e_attrs st, e_ocflags := st_e_ocflags st\<rparr>,
                          r_heap = st_heap st, r_modlist = ml', r_index_calls = []\<rparr>
                else Inr (after_mods env op e (e_attrs e) ml' st))"
  using assms by (simp add: bdb_modify_internal_def Let_def)

text \<open>
  For any \<open>value_match\<close>: pass 1 sets \<open>glue_attr_delete\<close> exactly when the list
  has an ADD or REPLACE of \<open>structuralObjectClass\<close> for whose first value
  \<open>value_match\<close>, asked about \<open>"glue"\<close>, leaves 0 in \<open>match\<close>.
\<close>

lemma pass1_flag:
  "fst (pass1 env ml e h) \<longleftrightarrow>
     (\<exists>m\<in>set ml. (sm_op m = LDAP_MOD_ADD \<or> sm_op m = LDAP_MOD_REPLACE)
        \<and> sm_desc m = si_ad_structuralObjectClass
        \<and> value_match env (first_value m) ''glue'' = 0)"
proof -
  have "fst (pass1 env ml e h) = fst (glue_scan (value_match env) ml)"
    by (simp add: pass1_def Let_def split_def)
  then show ?thesis
    by (simp add: glue_scan_flag hd_scbva)
qed

text \<open>
  The working copy \<open>e->e_attrs\<close> with which the second loop starts: the pre-image
  without its non-operational attributes when \<open>glue_attr_delete\<close> is set, and the
  pre-image as it is otherwise. The second loop runs on the state pass 1 leaves
  (\<open>bdb_modify_internal_after_pass1\<close>), so the purge comes before any modification
  is applied.
\<close>

lemma pass1_working_copy:
  "attrs_of (fst (snd (pass1 env ml e h))) (snd (snd (pass1 env ml e h))) =
     (if fst (pass1 env ml e h)
      then filter (\<lambda>a. is_at_operational env (a_desc a)) (attrs_of h (e_attrs e))
      else attrs_of h (e_attrs e))"
  using attrs_of_dup [of h "e_attrs e"]
        attrs_of_store [of "fst (attrs_dup h (e_attrs e))" "snd (attrs_dup h (e_attrs e))"]
  by (simp add: pass1_def Let_def split_def purge_non_operational_def)

text \<open>
  C9, for any \<open>value_match\<close>: the scan depends on a modification only through its
  operation, its descriptor and its first value, so further values of a modification
  do not change the decision; the comparison is with \<open>"glue"\<close>; and once a
  modification sets the flag the loop ends: the modifications behind it are not
  looked at, and \<open>value_match\<close> is not called again.
\<close>

theorem glue_scan_first_value_only:
  "(map (\<lambda>m. (sm_op m, sm_desc m, first_value m)) ml
      = map (\<lambda>m. (sm_op m, sm_desc m, first_value m)) ml'
    \<longrightarrow> glue_scan (value_match env) ml = glue_scan (value_match env) ml'
        \<and> fst (pass1 env ml e h) = fst (pass1 env ml' e h))
   \<and> (\<not> fst (glue_scan (value_match env) pre)
      \<and> (sm_op m = LDAP_MOD_ADD \<or> sm_op m = LDAP_MOD_REPLACE)
      \<and> sm_desc m = si_ad_structuralObjectClass
      \<and> value_match env (first_value m) ''glue'' = 0
    \<longrightarrow> glue_scan (value_match env) (pre @ m # post)
          = (True, snd (glue_scan (value_match env) pre) @ [first_value m])
        \<and> fst (pass1 env (pre @ m # post) e h))"
proof (intro conjI impI)
  assume a: "map (\<lambda>m. (sm_op m, sm_desc m, first_value m)) ml
      = map (\<lambda>m. (sm_op m, sm_desc m, first_value m)) ml'"
  show "glue_scan (value_match env) ml = glue_scan (value_match env) ml'"
    using glue_scan_cong [OF a] .
  then show "fst (pass1 env ml e h) = fst (pass1 env ml' e h)"
    by (simp add: pass1_def Let_def split_def)
next
  assume b: "\<not> fst (glue_scan (value_match env) pre)
      \<and> (sm_op m = LDAP_MOD_ADD \<or> sm_op m = LDAP_MOD_REPLACE)
      \<and> sm_desc m = si_ad_structuralObjectClass
      \<and> value_match env (first_value m) ''glue'' = 0"
  then show s: "glue_scan (value_match env) (pre @ m # post)
          = (True, snd (glue_scan (value_match env) pre) @ [first_value m])"
    using glue_scan_stops [of "value_match env" pre m post] by (simp add: hd_scbva)
  show "fst (pass1 env (pre @ m # post) e h)"
    by (simp add: pass1_def Let_def split_def s)
qed

subsection \<open>The index calls\<close>

lemma after_mods_calls:
  "\<exists>dels adds. r_index_calls (after_mods env op e save ml st) = dels @ adds
     \<and> (\<forall>c\<in>set dels. ic_op c = SLAP_INDEX_DELETE_OP)
     \<and> (\<forall>c\<in>set adds. ic_op c = SLAP_INDEX_ADD_OP)
     \<and> (r_rc (after_mods env op e save ml st) = LDAP_SUCCESS \<and> \<not> o_noop op \<longrightarrow>
          dels = index_calls_for (e_id e) SLAP_ATTR_IXDEL SLAP_INDEX_DELETE_OP
                   (attrs_of (st_heap st) save)
          \<and> (\<exists>post. adds = index_calls_for (e_id e) SLAP_ATTR_IXADD SLAP_INDEX_ADD_OP post
                \<and> map attr_data post =
                    map attr_data (attrs_of (r_heap (after_mods env op e save ml st))
                                     (e_attrs (r_entry (after_mods env op e save ml st))))))"
proof -
  define hh where "hh = st_heap st"
  define p where "p = st_e_attrs st"
  define rc where "rc = entry_schema_check env (attrs_of hh p) (attrs_of hh save) (o_manageDIT op)"
  show ?thesis
  proof (cases "rc \<noteq> LDAP_SUCCESS \<or> o_noop op")
    case True
    then have "r_index_calls (after_mods env op e save ml st) = [] @ []"
      and "r_rc (after_mods env op e save ml st) = rc"
      by (simp_all add: after_mods_def Let_def hh_def p_def rc_def)
    with True show ?thesis by (intro exI [of _ "[]"]) auto
  next
    case False
    then have rc0: "rc = LDAP_SUCCESS" and nn: "\<not> o_noop op" by simp_all
    obtain rc1 f1 pre' dels where l1:
      "index_loop env (e_id e) SLAP_ATTR_IXDEL SLAP_INDEX_DELETE_OP rc (attrs_of hh save) = (rc1, f1, pre', dels)"
      by (cases "index_loop env (e_id e) SLAP_ATTR_IXDEL SLAP_INDEX_DELETE_OP rc (attrs_of hh save)") auto
    define h1 where "h1 = attrs_update hh save (\<lambda>_. pre')"
    show ?thesis
    proof (cases f1)
      case True
      with False l1 have "r_index_calls (after_mods env op e save ml st) = dels @ []"
        and "r_rc (after_mods env op e save ml st) = rc1"
        by (simp_all add: after_mods_def Let_def hh_def [symmetric] p_def [symmetric] rc_def [symmetric])
      with index_loop_ops [OF l1] index_loop_rc [OF l1] True show ?thesis
        by (intro exI [of _ dels] exI [of _ "[]"]) auto
    next
      case f1: False
      with index_loop_rc [OF l1] rc0 have rc1: "rc1 = LDAP_SUCCESS" by simp
      obtain rc2 f2 post' adds where l2:
        "index_loop env (e_id e) SLAP_ATTR_IXADD SLAP_INDEX_ADD_OP rc1 (attrs_of h1 p) = (rc2, f2, post', adds)"
        by (cases "index_loop env (e_id e) SLAP_ATTR_IXADD SLAP_INDEX_ADD_OP rc1 (attrs_of h1 p)") auto
      define h2 where "h2 = attrs_update h1 p (\<lambda>_. post')"
      have res: "after_mods env op e save ml st =
          (if f2 then \<lparr>r_rc = rc2, r_entry = e\<lparr>e_attrs := save, e_ocflags := st_e_ocflags st\<rparr>,
                        r_heap = attrs_free h2 p, r_modlist = ml, r_index_calls = dels @ adds\<rparr>
           else \<lparr>r_rc = rc2, r_entry = e\<lparr>e_attrs := p, e_ocflags := st_e_ocflags st\<rparr>, r_heap = h2,
                  r_modlist = ml, r_index_calls = dels @ adds\<rparr>)"
        using False l1 f1 l2
        by (simp add: after_mods_def Let_def hh_def [symmetric] p_def [symmetric] rc_def [symmetric]
            h1_def [symmetric] h2_def [symmetric])
      have post: "attrs_of h2 p = post'"
      proof (cases p)
        case None
        with l2 show ?thesis by (simp add: h2_def attrs_update_def attrs_of_def)
      next
        case (Some d)
        show ?thesis
        proof (cases "cells h1 d")
          case None
          with Some l2 show ?thesis by (simp add: h2_def attrs_update_def attrs_of_def)
        next
          case (Some ys)
          with \<open>p = Some d\<close> show ?thesis by (simp add: h2_def attrs_update_def attrs_of_def)
        qed
      qed
      have d: "dels = index_calls_for (e_id e) SLAP_ATTR_IXDEL SLAP_INDEX_DELETE_OP (attrs_of hh save)"
        using index_loop_calls [OF l1] f1 by simp
      have a: "\<not> f2 \<Longrightarrow> adds = index_calls_for (e_id e) SLAP_ATTR_IXADD SLAP_INDEX_ADD_OP (attrs_of h1 p)"
        using index_loop_calls [OF l2] by simp
      have pd: "map attr_data (attrs_of h1 p) = map attr_data post'"
        using index_loop_data [OF l2] by simp
      show ?thesis
      proof (cases f2)
        case True
        with res index_loop_ops [OF l1] index_loop_ops [OF l2] index_loop_rc [OF l2] show ?thesis
          by (intro exI [of _ dels] exI [of _ adds]) auto
      next
        case False
        with res index_loop_ops [OF l1] index_loop_ops [OF l2] d a pd post show ?thesis
          by (intro exI [of _ dels] exI [of _ adds]) (auto simp: hh_def)
      qed
    qed
  qed
qed


text \<open>
  C5: the calls of \<open>bdb_index_values\<close> that a run makes are delete calls followed by
  add calls, none of the first after one of the second. After a successful modify that
  is not a no-op they are, in order, one delete call for each attribute of the
  pre-image that carries \<open>SLAP_ATTR_IXDEL\<close>, with its normalized values, and then one
  add call for each attribute of the post-image that carries \<open>SLAP_ATTR_IXADD\<close>, with
  its normalized values.
\<close>

theorem index_deletes_precede_adds:
  assumes "heap_ok h" and "valid_ptr h (e_attrs e)"
    and "bdb_modify_internal env op ml e h = Inr r"
  shows "\<exists>dels adds. r_index_calls r = dels @ adds
     \<and> (\<forall>c\<in>set dels. ic_op c = SLAP_INDEX_DELETE_OP)
     \<and> (\<forall>c\<in>set adds. ic_op c = SLAP_INDEX_ADD_OP)
     \<and> (r_rc r = LDAP_SUCCESS \<and> \<not> o_noop op \<longrightarrow>
          (\<exists>pre post.
              dels = index_calls_for (e_id e) SLAP_ATTR_IXDEL SLAP_INDEX_DELETE_OP pre
            \<and> adds = index_calls_for (e_id e) SLAP_ATTR_IXADD SLAP_INDEX_ADD_OP post
            \<and> map attr_data pre = map attr_data (attrs_of h (e_attrs e))
            \<and> map attr_data post = map attr_data (attrs_of (r_heap r) (e_attrs (r_entry r)))))"
proof (cases "acl_check_modlist env e (attrs_of h (e_attrs e)) ml")
  case False
  with assms(3) have "r_index_calls r = [] @ []" "r_rc r = LDAP_INSUFFICIENT_ACCESS"
    by (auto simp: bdb_modify_internal_def)
  then show ?thesis
    by (intro exI [of _ "[]"]) (simp add: ldap_codes)
next
  case True
  obtain g h2 p2 where p1: "pass1 env ml e h = (g, h2, p2)"
    by (cases "pass1 env ml e h")
  have inv: "dup_inv h (e_attrs e) h2 p2"
    using pass1_inv [OF assms(1,2) p1] .
  from assms(3) True p1 obtain err ml' st where
    am: "apply_mods env op g (e_attrs e) ml \<lparr>st_heap = h2, st_e_attrs = p2, st_e_ocflags = e_ocflags e\<rparr>
           = Inr (err, ml', st)"
    by (auto simp: bdb_modify_internal_def Let_def split: sum.splits)
  show ?thesis
  proof (cases "err = LDAP_SUCCESS")
    case False
    with assms(3) True p1 am have "r_index_calls r = [] @ []" "r_rc r = err"
      by (auto simp: bdb_modify_internal_def Let_def)
    with False show ?thesis
      by (intro exI [of _ "[]"]) simp
  next
    case e0: True
    with assms(3) True p1 am have r: "r = after_mods env op e (e_attrs e) ml' st"
      by (simp add: bdb_modify_internal_def Let_def)
    have "dup_inv h (e_attrs e) (st_heap st) (st_e_attrs st)"
      using apply_mods_inv [OF am] inv e0 by simp
    then have pre: "map attr_data (attrs_of (st_heap st) (e_attrs e)) = map attr_data (attrs_of h (e_attrs e))"
      by (simp add: dup_inv_def)
    from after_mods_calls [of env op e "e_attrs e" ml' st] obtain dels adds where
      c: "r_index_calls r = dels @ adds"
         "\<forall>c\<in>set dels. ic_op c = SLAP_INDEX_DELETE_OP"
         "\<forall>c\<in>set adds. ic_op c = SLAP_INDEX_ADD_OP"
         "r_rc r = LDAP_SUCCESS \<and> \<not> o_noop op \<longrightarrow>
            dels = index_calls_for (e_id e) SLAP_ATTR_IXDEL SLAP_INDEX_DELETE_OP
                     (attrs_of (st_heap st) (e_attrs e))
            \<and> (\<exists>post. adds = index_calls_for (e_id e) SLAP_ATTR_IXADD SLAP_INDEX_ADD_OP post
                  \<and> map attr_data post = map attr_data (attrs_of (r_heap r) (e_attrs (r_entry r))))"
      unfolding r by blast
    have c4: "r_rc r = LDAP_SUCCESS \<and> \<not> o_noop op \<longrightarrow>
          (\<exists>pre post.
              dels = index_calls_for (e_id e) SLAP_ATTR_IXDEL SLAP_INDEX_DELETE_OP pre
            \<and> adds = index_calls_for (e_id e) SLAP_ATTR_IXADD SLAP_INDEX_ADD_OP post
            \<and> map attr_data pre = map attr_data (attrs_of h (e_attrs e))
            \<and> map attr_data post = map attr_data (attrs_of (r_heap r) (e_attrs (r_entry r))))"
      using c(4) pre by blast
    show ?thesis
      using c(1,2,3) c4 by blast
  qed
qed

subsection \<open>Runs on the example entry\<close>

lemma Inr_from_case:
  "(case x of Inl t \<Rightarrow> False | Inr r \<Rightarrow> P r) \<Longrightarrow> \<exists>r. x = Inr r \<and> P r"
  by (cases x) auto

lemma example_heap_ok: "heap_ok example_heap"
  by (simp add: heap_ok_def example_heap_def)

lemma example_entry_valid: "valid_ptr example_heap (e_attrs example_entry)"
  by (simp add: valid_ptr_def example_heap_def example_entry_def)

text \<open>
  C3, on the entry with \<open>description: old\<close>, \<open>description\<close> being indexed. Adding
  \<open>new\<close> twice: the first ADD succeeds and flags the pre-image attribute, the second
  fails with \<open>LDAP_TYPE_OR_VALUE_EXISTS\<close>, and the function returns with
  \<open>SLAP_ATTR_IXDEL\<close> still set on the pre-image. Adding \<open>new\<close> once with an index
  store that fails: the delete loop returns with the flag still set. Only the path
  of the schema check clears the flags.
\<close>

theorem error_paths_leave_index_flag:
  "(case bdb_modify_internal example_env example_op [add_description_new, add_description_new]
           example_entry example_heap of
      Inl t \<Rightarrow> False
    | Inr r \<Rightarrow> r_rc r = LDAP_TYPE_OR_VALUE_EXISTS
        \<and> attrs_of (r_heap r) (e_attrs (r_entry r)) = [description_old\<lparr>a_flags := SLAP_ATTR_IXDEL\<rparr>])
   \<and> (case bdb_modify_internal failing_index_env example_op [add_description_new]
           example_entry example_heap of
      Inl t \<Rightarrow> False
    | Inr r \<Rightarrow> r_rc r = LDAP_OTHER
        \<and> attrs_of (r_heap r) (e_attrs (r_entry r)) = [description_old\<lparr>a_flags := SLAP_ATTR_IXDEL\<rparr>])
   \<and> (case bdb_modify_internal strict_env example_op [add_description_new]
           example_entry example_heap of
      Inl t \<Rightarrow> False
    | Inr r \<Rightarrow> r_rc r = LDAP_OBJECT_CLASS_VIOLATION
        \<and> attrs_of (r_heap r) (e_attrs (r_entry r)) = [description_old])"
  by code_simp


theorem glue_scan_first_value_only_witness:
  "map (\<lambda>m. (sm_op m, sm_desc m, first_value m)) [replace_soc [''glue'', ''organization'']]
      = map (\<lambda>m. (sm_op m, sm_desc m, first_value m)) [replace_soc [''glue'']]
   \<and> glue_scan (value_match example_env) [replace_soc [''glue'', ''organization'']]
      = glue_scan (value_match example_env) [replace_soc [''glue'']]
   \<and> \<not> fst (glue_scan (value_match example_env) [add_description_new])
   \<and> value_match example_env (first_value (replace_soc [''glue''])) ''glue'' = 0
   \<and> glue_scan (value_match example_env)
        ([add_description_new] @ replace_soc [''glue''] # [replace_soc [''organization'']])
      = (True, [Some ''glue''])"
proof -
  have a: "map (\<lambda>m. (sm_op m, sm_desc m, first_value m)) [replace_soc [''glue'', ''organization'']]
      = map (\<lambda>m. (sm_op m, sm_desc m, first_value m)) [replace_soc [''glue'']]"
    by (simp add: replace_soc_def first_value_def)
  have b: "\<not> fst (glue_scan (value_match example_env) [add_description_new])
      \<and> (sm_op (replace_soc [''glue'']) = LDAP_MOD_ADD
          \<or> sm_op (replace_soc [''glue'']) = LDAP_MOD_REPLACE)
      \<and> sm_desc (replace_soc [''glue'']) = si_ad_structuralObjectClass
      \<and> value_match example_env (first_value (replace_soc [''glue''])) ''glue'' = 0"
    by (simp add: replace_soc_def first_value_def add_description_new_def
        si_ad_structuralObjectClass_def example_env_def value_match_cmp_def)
  have c: "snd (glue_scan (value_match example_env) [add_description_new]) = []"
    "first_value (replace_soc [''glue'']) = Some ''glue''"
    by (simp_all add: replace_soc_def first_value_def add_description_new_def
        si_ad_structuralObjectClass_def)
  show ?thesis
    using glue_scan_first_value_only [of "[replace_soc [''glue'', ''organization'']]"
        "[replace_soc [''glue'']]" example_env example_entry example_heap
        "[add_description_new]" "replace_soc [''glue'']" "[replace_soc [''organization'']]"]
      a b c
    by simp
qed

theorem bdb_modify_internal_error_restores_witness:
  "heap_ok example_heap \<and> valid_ptr example_heap (e_attrs example_entry)
   \<and> (\<exists>r. bdb_modify_internal example_env example_op [add_description_new, add_description_new]
             example_entry example_heap = Inr r
          \<and> r_rc r = LDAP_TYPE_OR_VALUE_EXISTS
          \<and> e_attrs (r_entry r) = e_attrs example_entry
          \<and> map attr_data (attrs_of (r_heap r) (e_attrs example_entry))
              = map attr_data (attrs_of example_heap (e_attrs example_entry))
          \<and> cells (r_heap r) 1 = cells example_heap 1)"
proof -
  have "case bdb_modify_internal example_env example_op [add_description_new, add_description_new]
             example_entry example_heap of
          Inl t \<Rightarrow> False | Inr r \<Rightarrow> r_rc r = LDAP_TYPE_OR_VALUE_EXISTS"
    by code_simp
  then obtain r where r: "bdb_modify_internal example_env example_op
        [add_description_new, add_description_new] example_entry example_heap = Inr r"
    and rc: "r_rc r = LDAP_TYPE_OR_VALUE_EXISTS"
    using Inr_from_case by blast
  have ne: "r_rc r \<noteq> LDAP_SUCCESS"
    using rc by (simp add: ldap_codes)
  have p: "Some 1 \<noteq> e_attrs example_entry"
    by (simp add: example_entry_def)
  show ?thesis
    using bdb_modify_internal_error_restores [OF example_heap_ok example_entry_valid r ne]
      example_heap_ok example_entry_valid r rc p
    by simp
qed

theorem bdb_modify_internal_keeps_ops_witness:
  "(\<exists>r. bdb_modify_internal example_env example_op [softadd_description_old, add_description_new]
           example_entry example_heap = Inr r
        \<and> r_rc r = LDAP_SUCCESS
        \<and> r_modlist r = [softadd_description_old, add_description_new])
   \<and> sm_op softadd_description_old = SLAP_MOD_SOFTADD
   \<and> apply_mod example_env False False [description_old] softadd_description_old
        = Inr (LDAP_SUCCESS, [description_old], softadd_description_old)"
proof -
  have "case bdb_modify_internal example_env example_op [softadd_description_old, add_description_new]
             example_entry example_heap of
          Inl t \<Rightarrow> False | Inr r \<Rightarrow> r_rc r = LDAP_SUCCESS"
    by code_simp
  then obtain r where r: "bdb_modify_internal example_env example_op
        [softadd_description_old, add_description_new] example_entry example_heap = Inr r"
    and rc: "r_rc r = LDAP_SUCCESS"
    using Inr_from_case by blast
  have s: "sm_op softadd_description_old = SLAP_MOD_SOFTADD"
    by (simp add: softadd_description_old_def)
  have a: "modify_add_values example_env [description_old]
             (softadd_description_old\<lparr>sm_op := LDAP_MOD_ADD\<rparr>) False
           = (LDAP_TYPE_OR_VALUE_EXISTS, [description_old])"
    by (simp add: example_env_def softadd_description_old_def description_old_def)
  show ?thesis
    using bdb_modify_internal_keeps_ops [of example_env example_op
        "[softadd_description_old, add_description_new]" example_entry example_heap r
        softadd_description_old False False "[description_old]"] r rc s a
    by simp
qed

theorem index_deletes_precede_adds_witness:
  "heap_ok example_heap \<and> valid_ptr example_heap (e_attrs example_entry)
   \<and> (\<exists>r. bdb_modify_internal example_env example_op [add_description_new]
             example_entry example_heap = Inr r
          \<and> r_rc r = LDAP_SUCCESS \<and> \<not> o_noop example_op
          \<and> r_index_calls r =
              [\<lparr>ic_desc = ''description'', ic_vals = [''old''], ic_id = 7, ic_op = SLAP_INDEX_DELETE_OP\<rparr>,
               \<lparr>ic_desc = ''description'', ic_vals = [''old'', ''new''], ic_id = 7, ic_op = SLAP_INDEX_ADD_OP\<rparr>]
          \<and> (\<exists>dels adds. r_index_calls r = dels @ adds
                \<and> (\<forall>c\<in>set dels. ic_op c = SLAP_INDEX_DELETE_OP)
                \<and> (\<forall>c\<in>set adds. ic_op c = SLAP_INDEX_ADD_OP)))"
proof -
  have "case bdb_modify_internal example_env example_op [add_description_new]
             example_entry example_heap of
          Inl t \<Rightarrow> False
        | Inr r \<Rightarrow> r_rc r = LDAP_SUCCESS \<and> r_index_calls r =
              [\<lparr>ic_desc = ''description'', ic_vals = [''old''], ic_id = 7, ic_op = SLAP_INDEX_DELETE_OP\<rparr>,
               \<lparr>ic_desc = ''description'', ic_vals = [''old'', ''new''], ic_id = 7, ic_op = SLAP_INDEX_ADD_OP\<rparr>]"
    by code_simp
  then obtain r where r: "bdb_modify_internal example_env example_op
        [add_description_new] example_entry example_heap = Inr r"
    and rc: "r_rc r = LDAP_SUCCESS"
    and calls: "r_index_calls r =
              [\<lparr>ic_desc = ''description'', ic_vals = [''old''], ic_id = 7, ic_op = SLAP_INDEX_DELETE_OP\<rparr>,
               \<lparr>ic_desc = ''description'', ic_vals = [''old'', ''new''], ic_id = 7, ic_op = SLAP_INDEX_ADD_OP\<rparr>]"
    using Inr_from_case by blast
  have n: "\<not> o_noop example_op"
    by (simp add: example_op_def)
  from index_deletes_precede_adds [OF example_heap_ok example_entry_valid r]
  have "\<exists>dels adds. r_index_calls r = dels @ adds
                \<and> (\<forall>c\<in>set dels. ic_op c = SLAP_INDEX_DELETE_OP)
                \<and> (\<forall>c\<in>set adds. ic_op c = SLAP_INDEX_ADD_OP)"
    by blast
  then show ?thesis
    using example_heap_ok example_entry_valid r rc n calls by blast
qed



section \<open>Properties of \<open>bdb_modify\<close>\<close>

subsection \<open>An attempt on the entry made for the root, stage by stage\<close>

lemma emit_simps [simp]:
  "b_trace (emit ev st) = b_trace st @ [ev]"
  "b_heap (emit ev st) = b_heap st"
  "b_entries (emit ev st) = b_entries st"
  "b_ebrk (emit ev st) = b_ebrk st"
  "b_e (emit ev st) = b_e st"
  "b_ltid (emit ev st) = b_ltid st"
  "b_dummy (emit ev st) = b_dummy st"
  "b_fakeroot (emit ev st) = b_fakeroot st"
  "b_num_retries (emit ev st) = b_num_retries st"
  "b_preread (emit ev st) = b_preread st"
  "b_postread (emit ev st) = b_postread st"
  "b_num_ctrls (emit ev st) = b_num_ctrls st"
  "b_rs (emit ev st) = b_rs st"
  "b_modlist (emit ev st) = b_modlist st"
  by (simp_all add: emit_def)

lemma set_err_simps [simp]:
  "b_trace (set_err err st) = b_trace st"
  "b_heap (set_err err st) = b_heap st"
  "b_entries (set_err err st) = b_entries st"
  "b_ebrk (set_err err st) = b_ebrk st"
  "b_e (set_err err st) = b_e st"
  "b_ltid (set_err err st) = b_ltid st"
  "b_dummy (set_err err st) = b_dummy st"
  "b_fakeroot (set_err err st) = b_fakeroot st"
  "b_num_retries (set_err err st) = b_num_retries st"
  "b_preread (set_err err st) = b_preread st"
  "b_postread (set_err err st) = b_postread st"
  "b_num_ctrls (set_err err st) = b_num_ctrls st"
  "sr_err (b_rs (set_err err st)) = err"
  "b_modlist (set_err err st) = b_modlist st"
  by (simp_all add: set_err_def)

lemma entry_free_simps [simp]:
  "b_trace (entry_free a st) = b_trace st @ [Entry_Free a]"
  "b_num_retries (entry_free a st) = b_num_retries st"
  "b_dummy (entry_free a st) = b_dummy st"
  "b_rs (entry_free a st) = b_rs st"
  by (simp_all add: entry_free_def split: option.splits)








lemma index_events_quiet:
  "Txn_Commit \<notin> set (map Index_Values cs)" "Entry_Free a \<notin> set (map Index_Values cs)"
  by auto













subsection \<open>The entry made for the root\<close>





text \<open>
  The condition on \<open>slap_read_controls\<close> is needed: with a pre-read that fails and
  leaves no error in the reply, the run on the entry made for the root replies
  \<open>LDAP_SUCCESS\<close> without calling \<open>bdb_modify_internal\<close>, without committing and
  without freeing the entry.
\<close>

lemma fake_root_silent_preread_failure:
  "reply_and_trace (bdb_modify 0 silent_preread_env preread_root_op example_heap example_entries 1)
     = Some (Inr (LDAP_SUCCESS,
          [Txn_Begin, Send_Ldap_Result \<lparr>sr_err = LDAP_SUCCESS, sr_ctrls_set = False\<rparr>,
           Graduate_Commit_Csn, Txn_Abort, Cache_Return_Entry_W 1]))"
  by code_simp




subsection \<open>The no-op\<close>

text \<open>
  In a no-op \<open>bdb_modify_internal\<close> makes no call on the index store and leaves
  \<open>e->e_attrs\<close> at the saved list, whatever it returns.
\<close>

lemma apply_mods_error_pointer:
  "apply_mods env op g save ml st = Inr (err, ml', st') \<Longrightarrow> err \<noteq> LDAP_SUCCESS
     \<Longrightarrow> st_e_attrs st' = save"
proof (induction ml arbitrary: st err ml' st')
  case Nil
  then show ?case by simp
next
  case (Cons m ml)
  then show ?case
    by (auto simp: Let_def split: sum.splits prod.splits if_splits)
qed

lemma noop_reverts:
  assumes "o_noop op" and "bdb_modify_internal env op ml e h = Inr r"
  shows "r_index_calls r = [] \<and> e_attrs (r_entry r) = e_attrs e"
proof (cases "acl_check_modlist env e (attrs_of h (e_attrs e)) ml")
  case False
  with assms(2) show ?thesis by (auto simp: bdb_modify_internal_def)
next
  case True
  obtain g h2 p2 where p1: "pass1 env ml e h = (g, h2, p2)"
    by (cases "pass1 env ml e h")
  from assms(2) True p1 obtain err ml' st where
    am: "apply_mods env op g (e_attrs e) ml \<lparr>st_heap = h2, st_e_attrs = p2, st_e_ocflags = e_ocflags e\<rparr>
           = Inr (err, ml', st)"
    by (auto simp: bdb_modify_internal_def Let_def split: sum.splits)
  show ?thesis
  proof (cases "err = LDAP_SUCCESS")
    case False
    with assms(2) True p1 am apply_mods_error_pointer [OF am] show ?thesis
      by (auto simp: bdb_modify_internal_def Let_def)
  next
    case e0: True
    with assms(2) True p1 am have r: "r = after_mods env op e (e_attrs e) ml' st"
      by (simp add: bdb_modify_internal_def Let_def)
    show ?thesis
      unfolding r using assms(1) by (simp add: after_mods_def Let_def)
  qed
qed


text \<open>
  C6, on the example entry, \<open>ADD description: new\<close> as a no-op, every check passed.
  The reply is \<open>LDAP_X_NO_OPERATION\<close>, the outer transaction is aborted and not
  committed, there is no call on the index store and none of \<open>bdb_cache_modify\<close>. But
  \<open>bdb_modify_internal\<close> has left \<open>dummy.e_attrs\<close> at the attribute list of the cached
  entry, and \<open>return_results\<close> frees it: after the run the cached entry still points
  to address 0, and the list that was there is gone.
\<close>

theorem noop_frees_cached_attributes:
  "reply_and_trace (bdb_modify 0 example_bm_env noop_add_op example_heap example_entries 1)
     = Some (Inr (LDAP_X_NO_OPERATION,
          [Txn_Begin, Txn_Begin_Nested,
           Modify_Internal example_entry [description_old] [add_description_new],
           Id2entry_Update example_entry [description_old],
           Txn_Commit_Nested, Txn_Abort, Attrs_Free (Some 0),
           Send_Ldap_Result \<lparr>sr_err = LDAP_X_NO_OPERATION, sr_ctrls_set = False\<rparr>,
           Graduate_Commit_Csn, Cache_Return_Entry_W 0]))
   \<and> example_entries 0 = Some example_entry
   \<and> e_attrs example_entry = Some 0
   \<and> cells example_heap 0 = Some [description_old]
   \<and> cached_after 0 (bdb_modify 0 example_bm_env noop_add_op example_heap example_entries 1)
       = Some (Some example_entry, None)"
  by code_simp


end
